theory Spec2Isabelle
  imports Main "HOL-Library.Word" "HOL-Library.AList"
begin

unbundle bit_operations_syntax

section \<open>Data model of \<^verbatim>\<open>src/Template.js\<close>\<close>

text \<open>
  Numbers that the code uses as sizes, tile coordinates and pixel coordinates are
  non-negative integers and are modelled as \<open>nat\<close> (on them JavaScript's \<open>%\<close> and
  \<open>Math.floor(a / b)\<close> are \<open>mod\<close> and \<open>div\<close>). The entries of a
  \<open>Uint8ClampedArray\<close> are \<open>8 word\<close>, those of a \<open>Uint32Array\<close> are
  \<open>32 word\<close>. A read \<open>a[i]\<close> of a typed array is \<open>elemAt a i\<close>: \<open>None\<close>
  is JavaScript's \<open>undefined\<close> for an index outside the array, so \<open>a[i] === 0\<close>
  is \<open>elemAt a i = Some 0\<close>. A write outside the array is ignored, as
  \<open>xs[i := v]\<close> is.
\<close>

type_synonym u8 = "8 word"
type_synonym u32 = "32 word"

definition elemAt :: "'a list \<Rightarrow> nat \<Rightarrow> 'a option" where
  "elemAt xs i = (if i < length xs then Some (xs ! i) else None)"

text \<open>Exceptions are values: a \<open>TypeError\<close> for a property read of \<open>null\<close> or
  \<open>undefined\<close>, the canvas's \<open>IndexSizeError\<close> for \<open>getImageData\<close> of an
  empty rectangle.\<close>

datatype error = TypeError | IndexSizeError

text \<open>
  \<open>ImageData\<close>: width, height and the flat RGBA byte array. The same record stands
  for an \<open>ImageBitmap\<close> and for the content of a canvas (their pixels, row-major,
  four bytes each).
\<close>

record ImageData =
  width :: nat
  height :: nat
  data :: "u8 list"

text \<open>The entry \<open>{ width, height, data }\<close> of \<open>centerPixelIndex\<close>, under the names
  the source destructures it to.\<close>

record CenterInfo =
  chunkWidthPx :: nat
  chunkHeightPx :: nat
  centerData :: "u32 list"

text \<open>
  A chunk key \<open>"TTTT,TTTT,PPP,PPP"\<close> is kept as its four numbers
  (tile X, tile Y, pixel X, pixel Y), which \<open>split(',')\<close> and \<open>Number\<close> read back
  from the string; a tile key \<open>"TTTT,TTTT"\<close> as its two numbers. The string itself
  is \<open>templateTileName\<close> below.
\<close>

type_synonym chunkKey = "nat \<times> nat \<times> nat \<times> nat"
type_synonym tileKey = "nat \<times> nat"

text \<open>
  The fields of class \<open>Template\<close> that the chunker, the indexes, the diff and the
  compositor use. Objects and \<open>Map\<close>s keyed by strings are association lists in
  insertion order (\<open>AList.update\<close> overwrites in place or appends); the \<open>Set\<close>s
  of keys are sets of strings; \<open>activeColors\<close> may be \<open>null\<close>.
\<close>

record Template =
  sortID :: nat
  coords :: "nat \<times> nat \<times> nat \<times> nat"
  chunked :: "(chunkKey \<times> ImageData) list option"
  tileSize :: nat
  pixelCount :: nat
  placedPixelKeys :: "string set"
  wrongPixelKeys :: "string set"
  colorsUsed :: "(string \<times> nat) list"
  activeColors :: "string set option"
  centerPixelIndex :: "(chunkKey \<times> CenterInfo) list"
  tileIndex :: "(tileKey \<times> chunkKey list) list"

text \<open>The constructor of \<open>Template\<close> (lines 22-48), for the parameters modelled.\<close>

definition newTemplate :: "nat \<Rightarrow> nat \<times> nat \<times> nat \<times> nat \<Rightarrow> nat \<Rightarrow> Template" where
  "newTemplate sid co ts =
     \<lparr> sortID = sid, coords = co, chunked = None, tileSize = ts, pixelCount = 0,
       placedPixelKeys = {}, wrongPixelKeys = {}, colorsUsed = [],
       activeColors = Some {}, centerPixelIndex = [], tileIndex = [] \<rparr>"

definition resetPlacedPixels :: "Template \<Rightarrow> Template" where
  "resetPlacedPixels t = t\<lparr>placedPixelKeys := {}\<rparr>"

definition getPlacedPixelsCount :: "Template \<Rightarrow> nat" where
  "getPlacedPixelsCount t = card (placedPixelKeys t)"

definition resetWrongPixels :: "Template \<Rightarrow> Template" where
  "resetWrongPixels t = t\<lparr>wrongPixelKeys := {}\<rparr>"

definition getWrongPixelsCount :: "Template \<Rightarrow> nat" where
  "getWrongPixelsCount t = card (wrongPixelKeys t)"

subsection \<open>Strings\<close>

text \<open>\<open>Number.prototype.toString()\<close> on a non-negative integer, and \<open>padStart\<close>.\<close>

fun toString :: "nat \<Rightarrow> string" where
  "toString n = (if n < 10 then [''0123456789'' ! n]
                 else toString (n div 10) @ [''0123456789'' ! (n mod 10)])"

declare toString.simps [simp del]

definition padStart :: "nat \<Rightarrow> char \<Rightarrow> string \<Rightarrow> string" where
  "padStart n c s = replicate (n - length s) c @ s"

text \<open>The template literal \<open>`${a},${b}`\<close> of two numbers (a pixel key).\<close>

definition pixelKey :: "nat \<Rightarrow> nat \<Rightarrow> string" where
  "pixelKey globalX globalY = toString globalX @ '','' @ toString globalY"

subsection \<open>Packed colours\<close>

text \<open>
  \<open>(r << 16) | (g << 8) | b\<close> on bytes read from a typed array; \<open>undefined\<close>
  converts to 0 under the bitwise operators.
\<close>

definition toInt32 :: "u8 option \<Rightarrow> u32" where
  "toInt32 v = (case v of None \<Rightarrow> 0 | Some b \<Rightarrow> ucast b)"

definition packRGB :: "u8 option \<Rightarrow> u8 option \<Rightarrow> u8 option \<Rightarrow> u32" where
  "packRGB r g b = push_bit 16 (toInt32 r) OR push_bit 8 (toInt32 g) OR toInt32 b"

subsection \<open>The canvas calls\<close>

text \<open>
  The canvas API is the browser's, not the repository's. A canvas and an
  \<open>ImageBitmap\<close> keep their pixels premultiplied by alpha, one byte a channel;
  \<open>getImageData\<close> divides the alpha out again. \<open>stored a c\<close> is the colour byte
  read back for a colour byte \<open>c\<close> that went into the store with alpha \<open>a\<close>, both
  conversions rounding to nearest (the standard leaves the rounding to the browser):
  with alpha 255 nothing is lost, with alpha 0 the colour is lost, in between the
  colour may move by a few units.
\<close>

definition premultiply :: "u8 \<Rightarrow> u8 \<Rightarrow> u8" where
  "premultiply a c = word_of_int ((uint c * uint a + 127) div 255)"

definition unpremultiply :: "u8 \<Rightarrow> u8 \<Rightarrow> u8" where
  "unpremultiply a p =
     (if a = 0 then 0 else word_of_int (min 255 ((uint p * 255 + uint a div 2) div uint a)))"

definition stored :: "u8 \<Rightarrow> u8 \<Rightarrow> u8" where
  "stored a c = unpremultiply a (premultiply a c)"

text \<open>
  \<open>srcByte\<close> is channel \<open>c\<close> of pixel \<open>(x, y)\<close> of an image given by its straight
  RGBA bytes, transparent black outside the image; \<open>canvasByte\<close> is the same channel
  after the pixel has been through the store.
\<close>

definition srcByte :: "ImageData \<Rightarrow> nat \<Rightarrow> nat \<Rightarrow> nat \<Rightarrow> u8" where
  "srcByte bmp x y c =
     (if x < width bmp \<and> y < height bmp
      then (case elemAt (data bmp) ((y * width bmp + x) * 4 + c) of
              Some v \<Rightarrow> v | None \<Rightarrow> 0)
      else 0)"

definition canvasByte :: "ImageData \<Rightarrow> nat \<Rightarrow> nat \<Rightarrow> nat \<Rightarrow> u8" where
  "canvasByte bmp x y c =
     (if c < 3 then stored (srcByte bmp x y 3) (srcByte bmp x y c) else srcByte bmp x y c)"

text \<open>
  \<open>drawImage\<close> below is the content read by \<open>getImageData(0, 0, dw, dh)\<close> from a
  cleared \<open>dw \<times> dh\<close> canvas after \<open>drawImage(bmp, sx, sy, sw, sh, 0, 0, dw, dh)\<close>
  with \<open>imageSmoothingEnabled = false\<close>: nearest-neighbour sampling, destination
  pixel \<open>(X, Y)\<close> taking source pixel \<open>(sx + \<lfloor>X * sw / dw\<rfloor>, sy + \<lfloor>Y * sh / dh\<rfloor>)\<close>,
  transparent black outside the source, every pixel read back from the store.
\<close>

definition drawImage ::
  "ImageData \<Rightarrow> nat \<Rightarrow> nat \<Rightarrow> nat \<Rightarrow> nat \<Rightarrow> nat \<Rightarrow> nat \<Rightarrow> ImageData" where
  "drawImage bmp sx sy sw sh dw dh =
     \<lparr> width = dw, height = dh,
       data = concat (map (\<lambda>i. map (canvasByte bmp (sx + (i mod dw) * sw div dw)
                                                    (sy + (i div dw) * sh div dh)) [0..<4])
                          [0..<dw * dh]) \<rparr>"

text \<open>\<open>drawImage(bmp, 0, 0)\<close> on a canvas of the bitmap's size, then
  \<open>getImageData(0, 0, bmp.width, bmp.height)\<close>: a fresh copy of the pixels as the
  store gives them back.\<close>

definition getImageData :: "ImageData \<Rightarrow> ImageData" where
  "getImageData bmp = drawImage bmp 0 0 (width bmp) (height bmp) (width bmp) (height bmp)"

text \<open>\<open>putImageData(img, 0, 0)\<close> on a canvas of the size of \<open>img\<close>: the content of
  the canvas afterwards, which is also the \<open>ImageBitmap\<close> that
  \<open>createImageBitmap(canvas)\<close> copies from it. Every pixel of \<open>img\<close> goes into the
  store.\<close>

definition putImageData :: "ImageData \<Rightarrow> ImageData" where
  "putImageData img = drawImage img 0 0 (width img) (height img) (width img) (height img)"

section \<open>The diff engine (\<open>TemplateManager.drawTemplateOnTile\<close>, lines 569-710)\<close>

text \<open>
  The three updates of the two sets, written in both paths with the same statements
  (lines 629-640 and 694-705): \<open>if (s.has(key)) { s.delete(key); }\<close> and
  \<open>if (!s.has(key)) { s.add(key); }\<close>.
\<close>

definition deleteIfHas :: "string \<Rightarrow> string set \<Rightarrow> string set" where
  "deleteIfHas key s = (if key \<in> s then s - {key} else s)"

definition addIfMissing :: "string \<Rightarrow> string set \<Rightarrow> string set" where
  "addIfMissing key s = (if key \<notin> s then insert key s else s)"

definition markUnplaced :: "string \<Rightarrow> Template \<Rightarrow> Template" where
  "markUnplaced key template =
     template\<lparr> placedPixelKeys := deleteIfHas key (placedPixelKeys template),
               wrongPixelKeys := deleteIfHas key (wrongPixelKeys template) \<rparr>"

definition markPlaced :: "string \<Rightarrow> Template \<Rightarrow> Template" where
  "markPlaced key template =
     template\<lparr> placedPixelKeys := addIfMissing key (placedPixelKeys template),
               wrongPixelKeys := deleteIfHas key (wrongPixelKeys template) \<rparr>"

definition markWrong :: "string \<Rightarrow> Template \<Rightarrow> Template" where
  "markWrong key template =
     template\<lparr> wrongPixelKeys := addIfMissing key (wrongPixelKeys template),
               placedPixelKeys := deleteIfHas key (placedPixelKeys template) \<rparr>"

subsection \<open>Optimized path (lines 645-709)\<close>

text \<open>\<open>basePacked\<close> (lines 657-669): one packed value per pixel of the
  \<open>tileSize \<times> tileSize\<close> snapshot, 0 where its alpha is 0.\<close>

definition basePackedOf :: "nat \<Rightarrow> ImageData \<Rightarrow> u32 list" where
  "basePackedOf T baseImage =
     map (\<lambda>i. let d = data baseImage; di = 4 * i;
                   r = elemAt d di; g = elemAt d (di + 1);
                   b = elemAt d (di + 2); a = elemAt d (di + 3)
               in if a = Some 0 then 0 else packRGB r g b)
         [0..<T * T]"

text \<open>The body of the two inner loops (lines 685-705) at \<open>(x, y)\<close>.\<close>

definition diffPixelOptimized ::
  "nat \<Rightarrow> u32 list \<Rightarrow> tileKey \<Rightarrow> chunkKey \<Rightarrow> CenterInfo \<Rightarrow> nat \<Rightarrow> nat \<Rightarrow> Template \<Rightarrow> Template"
  where
  "diffPixelOptimized T basePacked tileAbs tileKey centerInfo y x template =
     (let tileXAbs = fst tileAbs; tileYAbs = snd tileAbs;
          pixelOffsetX = fst (snd (snd tileKey)); pixelOffsetY = snd (snd (snd tileKey));
          dstX = pixelOffsetX + x; dstY = pixelOffsetY + y
      in if dstX \<ge> T \<or> dstY \<ge> T then template
         else
           let baseVal = elemAt basePacked (dstY * T + dstX);
               tplVal = elemAt (centerData centerInfo) (y * chunkWidthPx centerInfo + x)
           in if tplVal = Some 0 then template
              else
                let globalX = tileXAbs * T + dstX; globalY = tileYAbs * T + dstY;
                    key = pixelKey globalX globalY
                in if baseVal = Some 0 then markUnplaced key template
                   else if baseVal = tplVal then markPlaced key template
                   else markWrong key template)"

definition diffChunkOptimized ::
  "nat \<Rightarrow> u32 list \<Rightarrow> tileKey \<Rightarrow> chunkKey \<Rightarrow> CenterInfo \<Rightarrow> Template \<Rightarrow> Template" where
  "diffChunkOptimized T basePacked tileAbs tileKey centerInfo template =
     fold (\<lambda>y. fold (\<lambda>x. diffPixelOptimized T basePacked tileAbs tileKey centerInfo y x)
                     [0..<chunkWidthPx centerInfo])
          [0..<chunkHeightPx centerInfo] template"

text \<open>One template of the loop \<open>for (const template of templateArray)\<close>
  (lines 673-709): every chunk key the tile index lists for the tile, chunks without
  an index entry skipped.\<close>

definition diffTemplateOptimized ::
  "nat \<Rightarrow> u32 list \<Rightarrow> tileKey \<Rightarrow> Template \<Rightarrow> Template" where
  "diffTemplateOptimized T basePacked tileCoords template =
     (let matchingTiles = (case map_of (tileIndex template) tileCoords of
                             Some ks \<Rightarrow> ks | None \<Rightarrow> [])
      in fold (\<lambda>tileKey t.
                 case map_of (centerPixelIndex t) tileKey of
                   None \<Rightarrow> t
                 | Some centerInfo \<Rightarrow> diffChunkOptimized T basePacked tileCoords tileKey centerInfo t)
              matchingTiles template)"

subsection \<open>Legacy path (lines 571-644)\<close>

text \<open>The body of the two inner loops (lines 611-640) at \<open>(x, y)\<close>; \<open>baseImage\<close> is
  the snapshot drawn at \<open>drawSizeLegacy = tileSize * drawMult\<close>, \<open>tplImage\<close> the
  chunk's bitmap read back.\<close>

definition diffPixelLegacy ::
  "nat \<Rightarrow> nat \<Rightarrow> ImageData \<Rightarrow> tileKey \<Rightarrow> chunkKey \<Rightarrow> ImageData \<Rightarrow> nat \<Rightarrow> nat \<Rightarrow> Template \<Rightarrow> Template"
  where
  "diffPixelLegacy T drawMult baseImage tileAbs tileKey tplImage y x template =
     (let tileXAbs = fst tileAbs; tileYAbs = snd tileAbs;
          pixelOffsetX = fst (snd (snd tileKey)); pixelOffsetY = snd (snd (snd tileKey));
          drawSizeLegacy = T * drawMult;
          bmpWidth = width tplImage;
          centerX = (pixelOffsetX + x) * drawMult + 1;
          centerY = (pixelOffsetY + y) * drawMult + 1;
          tplCenterX = x * drawMult + 1;
          tplCenterY = y * drawMult + 1;
          tplIdx = (tplCenterY * bmpWidth + tplCenterX) * 4;
          tplA = elemAt (data tplImage) (tplIdx + 3)
      in if tplA = Some 0 then template
         else
           let baseIdx = (centerY * drawSizeLegacy + centerX) * 4;
               br = elemAt (data baseImage) (baseIdx + 0);
               bg = elemAt (data baseImage) (baseIdx + 1);
               bb = elemAt (data baseImage) (baseIdx + 2);
               ba = elemAt (data baseImage) (baseIdx + 3);
               tr = elemAt (data tplImage) (tplIdx + 0);
               tg = elemAt (data tplImage) (tplIdx + 1);
               tb = elemAt (data tplImage) (tplIdx + 2);
               globalX = tileXAbs * T + (pixelOffsetX + x);
               globalY = tileYAbs * T + (pixelOffsetY + y);
               key = pixelKey globalX globalY
           in if ba = Some 0 then markUnplaced key template
              else if br = tr \<and> bg = tg \<and> bb = tb then markPlaced key template
              else markWrong key template)"

definition diffChunkLegacy ::
  "nat \<Rightarrow> nat \<Rightarrow> ImageData \<Rightarrow> tileKey \<Rightarrow> chunkKey \<Rightarrow> ImageData \<Rightarrow> Template \<Rightarrow> Template" where
  "diffChunkLegacy T drawMult baseImage tileAbs tileKey bmp template =
     (let bmpWidth = width bmp; bmpHeight = height bmp;
          chunkWidthPx = bmpWidth div drawMult;
          chunkHeightPx = bmpHeight div drawMult;
          tplImage = getImageData bmp
      in fold (\<lambda>y. fold (\<lambda>x. diffPixelLegacy T drawMult baseImage tileAbs tileKey tplImage y x)
                         [0..<chunkWidthPx])
              [0..<chunkHeightPx] template)"

text \<open>One template of the loop at lines 589-644. \<open>template.chunked[tileKey]\<close> is
  read without a check: a key of the tile index without a bitmap (or no \<open>chunked\<close>
  at all) throws a \<open>TypeError\<close> at \<open>bmp.width\<close>. The sets are mutated in place,
  so the error value carries the template as it is at the throw.\<close>

fun diffKeysLegacy ::
  "nat \<Rightarrow> nat \<Rightarrow> ImageData \<Rightarrow> tileKey \<Rightarrow> chunkKey list \<Rightarrow> Template
     \<Rightarrow> (error \<times> Template) + Template" where
  "diffKeysLegacy T drawMult baseImage tileCoords [] t = Inr t"
| "diffKeysLegacy T drawMult baseImage tileCoords (tileKey # ks) t =
     (case chunked t of
        None \<Rightarrow> Inl (TypeError, t)
      | Some ch \<Rightarrow>
          (case map_of ch tileKey of
             None \<Rightarrow> Inl (TypeError, t)
           | Some bmp \<Rightarrow>
               diffKeysLegacy T drawMult baseImage tileCoords ks
                 (diffChunkLegacy T drawMult baseImage tileCoords tileKey bmp t)))"

definition diffTemplateLegacy ::
  "nat \<Rightarrow> nat \<Rightarrow> ImageData \<Rightarrow> tileKey \<Rightarrow> Template \<Rightarrow> (error \<times> Template) + Template" where
  "diffTemplateLegacy T drawMult baseImage tileCoords template =
     (let matchingTiles = (case map_of (tileIndex template) tileCoords of
                             Some ks \<Rightarrow> ks | None \<Rightarrow> [])
      in diffKeysLegacy T drawMult baseImage tileCoords matchingTiles template)"

text \<open>The template after a call, returned or thrown.\<close>

definition stateOf :: "(error \<times> Template) + Template \<Rightarrow> Template" where
  "stateOf r = (case r of Inl (e, t) \<Rightarrow> t | Inr t \<Rightarrow> t)"

subsection \<open>The diff of one template against a snapshot of a tile\<close>

text \<open>
  \<open>baseBitmap\<close> is the decoded \<open>tileBlob\<close>. The legacy path draws it at
  \<open>drawSizeLegacy \<times> drawSizeLegacy\<close> (lines 573-583), the optimized path at
  \<open>tileSize \<times> tileSize\<close> and packs it (lines 652-669). \<open>T\<close> and \<open>drawMult\<close> are
  the manager's \<open>tileSize\<close> and \<open>drawMult\<close>. Setting the width of the analysis
  canvas resets its context, smoothing included, so a browser smooths the
  enlargement of the legacy path; the legacy path reads the centre of each enlarged
  pixel only, where the sample is the source pixel either way, and the model keeps
  the nearest-neighbour sampling of \<open>drawImage\<close>.
\<close>

definition diffTileLegacy ::
  "nat \<Rightarrow> nat \<Rightarrow> ImageData \<Rightarrow> tileKey \<Rightarrow> Template \<Rightarrow> (error \<times> Template) + Template" where
  "diffTileLegacy T drawMult baseBitmap tileCoords template =
     (let drawSizeLegacy = T * drawMult;
          baseImage = drawImage baseBitmap 0 0 (width baseBitmap) (height baseBitmap)
                        drawSizeLegacy drawSizeLegacy
      in diffTemplateLegacy T drawMult baseImage tileCoords template)"

definition diffTileOptimized :: "nat \<Rightarrow> ImageData \<Rightarrow> tileKey \<Rightarrow> Template \<Rightarrow> Template" where
  "diffTileOptimized T baseBitmap tileCoords template =
     (let baseImage = drawImage baseBitmap 0 0 (width baseBitmap) (height baseBitmap) T T;
          basePacked = basePackedOf T baseImage
      in diffTemplateOptimized T basePacked tileCoords template)"

section \<open>The tile chunker (\<open>Template.createTemplateTiles\<close>, lines 75-244)\<close>

definition shreadSize :: nat where
  "shreadSize = 3"

text \<open>The colour key \<open>`${r},${g},${b}`\<close> of three bytes read from a typed array, and
  \<open>colorsUsed.set(key, (colorsUsed.get(key) || 0) + 1)\<close>.\<close>

definition showByte :: "u8 option \<Rightarrow> string" where
  "showByte v = (case v of None \<Rightarrow> ''undefined'' | Some b \<Rightarrow> toString (unat b))"

definition colorKey :: "u8 option \<Rightarrow> u8 option \<Rightarrow> u8 option \<Rightarrow> string" where
  "colorKey r g b = showByte r @ '','' @ showByte g @ '','' @ showByte b"

definition bumpColor :: "string \<Rightarrow> (string \<times> nat) list \<Rightarrow> (string \<times> nat) list" where
  "bumpColor key cu =
     AList.update key ((case map_of cu key of None \<Rightarrow> 0 | Some c \<Rightarrow> c) + 1) cu"

text \<open>
  Lines 155-174: every pixel of the canvas; a centre of a 3x3 cell with alpha other
  than 0 is counted in \<open>colorsUsed\<close>, every other pixel gets alpha 0. The state is
  \<open>imageData.data\<close> and \<open>this.colorsUsed\<close>.
\<close>

definition shredPixel ::
  "nat \<Rightarrow> nat \<Rightarrow> nat \<Rightarrow> u8 list \<times> (string \<times> nat) list \<Rightarrow> u8 list \<times> (string \<times> nat) list"
  where
  "shredPixel canvasWidth y x st =
     (let d = fst st; cu = snd st;
          pixelIndex = (y * canvasWidth + x) * 4;
          isCenter = (x mod shreadSize = 1 \<and> y mod shreadSize = 1)
      in if isCenter then
           (let a = elemAt d (pixelIndex + 3)
            in if a \<noteq> Some 0 then
                 (let r = elemAt d (pixelIndex + 0);
                      g = elemAt d (pixelIndex + 1);
                      b = elemAt d (pixelIndex + 2);
                      key = colorKey r g b
                  in (d, bumpColor key cu))
               else (d, cu))
         else (d[pixelIndex + 3 := 0], cu))"

definition shred ::
  "nat \<Rightarrow> nat \<Rightarrow> u8 list \<times> (string \<times> nat) list \<Rightarrow> u8 list \<times> (string \<times> nat) list" where
  "shred canvasWidth canvasHeight =
     fold (\<lambda>y. fold (\<lambda>x. shredPixel canvasWidth y x) [0..<canvasWidth]) [0..<canvasHeight]"

text \<open>Lines 200-224: the packed buffer built from the shredded \<open>imageData\<close>, a
  \<open>Uint32Array\<close> of zeros written at \<open>yy * chunkWidthPx + xx\<close> (\<open>cd\<close> is
  \<open>centerData\<close>, \<open>widthPx\<close> is \<open>chunkWidthPx\<close>).\<close>

definition inlineCenterPixel :: "nat \<Rightarrow> nat \<Rightarrow> u8 list \<Rightarrow> nat \<Rightarrow> nat \<Rightarrow> u32 list \<Rightarrow> u32 list" where
  "inlineCenterPixel canvasWidth widthPx d yy xx cd =
     (let cx = xx * shreadSize + 1;
          cy = yy * shreadSize + 1;
          srcIdx = (cy * canvasWidth + cx) * 4;
          a = elemAt d (srcIdx + 3)
      in if a = Some 0 then cd[yy * widthPx + xx := 0]
         else
           (let r = elemAt d (srcIdx + 0);
                g = elemAt d (srcIdx + 1);
                b = elemAt d (srcIdx + 2)
            in cd[yy * widthPx + xx := packRGB r g b]))"

definition inlineCenterInfo :: "nat \<Rightarrow> nat \<Rightarrow> u8 list \<Rightarrow> CenterInfo" where
  "inlineCenterInfo canvasWidth canvasHeight d =
     (let chunkWidthPx = canvasWidth div shreadSize;
          chunkHeightPx = canvasHeight div shreadSize;
          centerData =
            fold (\<lambda>yy. fold (\<lambda>xx. inlineCenterPixel canvasWidth chunkWidthPx d yy xx)
                            [0..<chunkWidthPx])
                 [0..<chunkHeightPx] (replicate (chunkWidthPx * chunkHeightPx) 0)
      in \<lparr> chunkWidthPx = chunkWidthPx, chunkHeightPx = chunkHeightPx,
           centerData = centerData \<rparr>)"

text \<open>Lines 180-187: the numbers of the key, with the literal 1000 of the source, and
  the key as the string the source builds.\<close>

definition templateTileKey :: "nat \<times> nat \<times> nat \<times> nat \<Rightarrow> nat \<Rightarrow> nat \<Rightarrow> chunkKey" where
  "templateTileKey co pixelX pixelY =
     (fst co + pixelX div 1000, fst (snd co) + pixelY div 1000,
      pixelX mod 1000, pixelY mod 1000)"

definition templateTileName :: "chunkKey \<Rightarrow> string" where
  "templateTileName k =
     padStart 4 (CHR ''0'') (toString (fst k)) @ '','' @
     padStart 4 (CHR ''0'') (toString (fst (snd k))) @ '','' @
     padStart 3 (CHR ''0'') (toString (fst (snd (snd k)))) @ '','' @
     padStart 3 (CHR ''0'') (toString (snd (snd (snd k))))"

text \<open>
  The body of the inner loop (lines 116-229) for the segment at \<open>(pixelX, pixelY)\<close>
  of size \<open>drawSizeX \<times> drawSizeY\<close>. The state is \<open>this\<close> and the local
  \<open>templateTiles\<close>; \<open>templateTilesBuffers\<close> (the PNG bytes of the same canvas in
  base64) is left out.
\<close>

definition makeChunk ::
  "nat \<times> nat \<times> nat \<times> nat \<Rightarrow> ImageData \<Rightarrow> nat \<Rightarrow> nat \<Rightarrow> nat \<Rightarrow> nat
     \<Rightarrow> Template \<times> (chunkKey \<times> ImageData) list \<Rightarrow> Template \<times> (chunkKey \<times> ImageData) list"
  where
  "makeChunk co bitmap pixelX pixelY drawSizeX drawSizeY st =
     (let this = fst st; templateTiles = snd st;
          canvasWidth = drawSizeX * shreadSize;
          canvasHeight = drawSizeY * shreadSize;
          imageData = drawImage bitmap (pixelX - fst (snd (snd co))) (pixelY - snd (snd (snd co)))
                        drawSizeX drawSizeY (drawSizeX * shreadSize) (drawSizeY * shreadSize);
          shredded = shred canvasWidth canvasHeight (data imageData, colorsUsed this);
          canvasBitmap = putImageData
                           \<lparr> width = canvasWidth, height = canvasHeight, data = fst shredded \<rparr>;
          name = templateTileKey co pixelX pixelY;
          centerInfo = inlineCenterInfo canvasWidth canvasHeight (fst shredded);
          tileXY = (fst name, fst (snd name));
          list = (case map_of (tileIndex this) tileXY of Some l \<Rightarrow> l | None \<Rightarrow> [])
      in (this\<lparr> colorsUsed := snd shredded,
                centerPixelIndex := AList.update name centerInfo (centerPixelIndex this),
                tileIndex := AList.update tileXY (list @ [name]) (tileIndex this) \<rparr>,
          AList.update name canvasBitmap templateTiles))"

text \<open>
  The two loops (lines 98 and 108). \<open>T\<close> is \<open>this.tileSize\<close> and \<open>co\<close> is
  \<open>this.coords\<close>, which the loops never assign. The conjuncts \<open>c \<le> pixel\<close> and
  \<open>0 < T\<close> of the loop tests hold in every run that gets there (the counters
  start at the coordinate and grow; \<open>T = 0\<close> is caught before the loops, see
  \<open>createTemplateTiles\<close>): they are there for the termination proofs only.
\<close>

function xLoop ::
  "nat \<Rightarrow> nat \<times> nat \<times> nat \<times> nat \<Rightarrow> ImageData \<Rightarrow> nat \<Rightarrow> nat \<Rightarrow> nat
     \<Rightarrow> Template \<times> (chunkKey \<times> ImageData) list \<Rightarrow> Template \<times> (chunkKey \<times> ImageData) list"
  where
  "xLoop T co bitmap pixelY drawSizeY pixelX st =
     (if pixelX < width bitmap + fst (snd (snd co)) \<and> fst (snd (snd co)) \<le> pixelX \<and> 0 < T
      then
        xLoop T co bitmap pixelY drawSizeY
          (pixelX + min (T - pixelX mod T) (width bitmap - (pixelX - fst (snd (snd co)))))
          (makeChunk co bitmap pixelX pixelY
             (min (T - pixelX mod T) (width bitmap - (pixelX - fst (snd (snd co)))))
             drawSizeY st)
      else st)"
  by pat_completeness auto
termination
proof (relation "measure (\<lambda>(T, co, bitmap, pixelY, drawSizeY, pixelX, st).
                     width bitmap + fst (snd (snd co)) - pixelX)")
  show "wf (measure (\<lambda>(T, co, bitmap, pixelY, drawSizeY, pixelX, st).
                     width bitmap + fst (snd (snd co)) - pixelX))"
    by simp
next
  fix T :: nat and co :: "nat \<times> nat \<times> nat \<times> nat" and bitmap :: ImageData
    and pixelY drawSizeY pixelX :: nat and st :: "Template \<times> (chunkKey \<times> ImageData) list"
  assume a: "pixelX < width bitmap + fst (snd (snd co)) \<and> fst (snd (snd co)) \<le> pixelX \<and> 0 < T"
  then have "pixelX mod T < T" by simp
  with a show "((T, co, bitmap, pixelY, drawSizeY,
           pixelX + min (T - pixelX mod T) (width bitmap - (pixelX - fst (snd (snd co)))),
           makeChunk co bitmap pixelX pixelY
             (min (T - pixelX mod T) (width bitmap - (pixelX - fst (snd (snd co)))))
             drawSizeY st),
          (T, co, bitmap, pixelY, drawSizeY, pixelX, st))
        \<in> measure (\<lambda>(T, co, bitmap, pixelY, drawSizeY, pixelX, st).
                     width bitmap + fst (snd (snd co)) - pixelX)"
    by (simp add: min_def) arith
qed

declare xLoop.simps [simp del]

function yLoop ::
  "nat \<Rightarrow> nat \<times> nat \<times> nat \<times> nat \<Rightarrow> ImageData \<Rightarrow> nat
     \<Rightarrow> Template \<times> (chunkKey \<times> ImageData) list \<Rightarrow> Template \<times> (chunkKey \<times> ImageData) list"
  where
  "yLoop T co bitmap pixelY st =
     (if pixelY < height bitmap + snd (snd (snd co)) \<and> snd (snd (snd co)) \<le> pixelY \<and> 0 < T
      then
        yLoop T co bitmap
          (pixelY + min (T - pixelY mod T) (height bitmap - (pixelY - snd (snd (snd co)))))
          (xLoop T co bitmap pixelY
             (min (T - pixelY mod T) (height bitmap - (pixelY - snd (snd (snd co)))))
             (fst (snd (snd co))) st)
      else st)"
  by pat_completeness auto
termination
proof (relation "measure (\<lambda>(T, co, bitmap, pixelY, st).
                     height bitmap + snd (snd (snd co)) - pixelY)")
  show "wf (measure (\<lambda>(T, co, bitmap, pixelY, st).
                     height bitmap + snd (snd (snd co)) - pixelY))"
    by simp
next
  fix T :: nat and co :: "nat \<times> nat \<times> nat \<times> nat" and bitmap :: ImageData
    and pixelY :: nat and st :: "Template \<times> (chunkKey \<times> ImageData) list"
  assume a: "pixelY < height bitmap + snd (snd (snd co)) \<and> snd (snd (snd co)) \<le> pixelY \<and> 0 < T"
  then have "pixelY mod T < T" by simp
  with a show "((T, co, bitmap,
           pixelY + min (T - pixelY mod T) (height bitmap - (pixelY - snd (snd (snd co)))),
           xLoop T co bitmap pixelY
             (min (T - pixelY mod T) (height bitmap - (pixelY - snd (snd (snd co)))))
             (fst (snd (snd co))) st),
          (T, co, bitmap, pixelY, st))
        \<in> measure (\<lambda>(T, co, bitmap, pixelY, st).
                     height bitmap + snd (snd (snd co)) - pixelY)"
    by (simp add: min_def) arith
qed

declare yLoop.simps [simp del]

text \<open>
  \<open>createTemplateTiles\<close>; \<open>bitmap\<close> is \<open>createImageBitmap(this.file)\<close>. With
  \<open>tileSize = 0\<close> the first segment has size \<open>NaN\<close> and \<open>getImageData\<close> throws on
  the empty rectangle. After the loops every key of \<open>colorsUsed\<close> is added to
  \<open>activeColors\<close> (lines 240-242), which throws when \<open>activeColors\<close> is \<open>null\<close>
  and there is a key to add. The result is \<open>this\<close> and \<open>templateTiles\<close>.
\<close>

definition createTemplateTiles ::
  "Template \<Rightarrow> ImageData
     \<Rightarrow> (error \<times> Template) + (Template \<times> (chunkKey \<times> ImageData) list)" where
  "createTemplateTiles this bitmap =
     (let imageWidth = width bitmap;
          imageHeight = height bitmap;
          totalPixels = imageWidth * imageHeight;
          this1 = this\<lparr>pixelCount := totalPixels\<rparr>
      in if tileSize this = 0 \<and> 0 < imageWidth \<and> 0 < imageHeight
         then Inl (IndexSizeError, this1)
         else
           (let st = yLoop (tileSize this) (coords this) bitmap (snd (snd (snd (coords this))))
                       (this1, []);
                this2 = fst st; templateTiles = snd st
            in if colorsUsed this2 = [] then Inr (this2, templateTiles)
               else (case activeColors this2 of
                       None \<Rightarrow> Inl (TypeError, this2)
                     | Some ac \<Rightarrow>
                         Inr (this2\<lparr>activeColors := Some (ac \<union> set (map fst (colorsUsed this2)))\<rparr>,
                              templateTiles))))"

section \<open>The chunk index (\<open>buildTileIndex\<close>, \<open>buildCenterPixelIndex\<close>, lines 247-297)\<close>

definition buildTileIndex :: "Template \<Rightarrow> Template" where
  "buildTileIndex this =
     (case chunked this of
        None \<Rightarrow> this\<lparr>tileIndex := []\<rparr>
      | Some ch \<Rightarrow>
          this\<lparr>tileIndex :=
            fold (\<lambda>key ti.
                    let tileXY = (fst key, fst (snd key));
                        ti1 = (if map_of ti tileXY = None then AList.update tileXY [] ti else ti);
                        list = (case map_of ti1 tileXY of Some l \<Rightarrow> l | None \<Rightarrow> [])
                    in AList.update tileXY (list @ [key]) ti1)
                 (map fst ch) []\<rparr>)"

text \<open>The body of the two inner loops of \<open>buildCenterPixelIndex\<close> (lines 277-290); the
  state is \<open>centerData\<close> and \<open>this.colorsUsed\<close>.\<close>

definition indexCenterPixel ::
  "nat \<Rightarrow> nat \<Rightarrow> nat \<Rightarrow> u8 list \<Rightarrow> nat \<Rightarrow> nat
     \<Rightarrow> u32 list \<times> (string \<times> nat) list \<Rightarrow> u32 list \<times> (string \<times> nat) list" where
  "indexCenterPixel drawMult bmpWidth widthPx d y x st =
     (let cd = fst st; cu = snd st;
          cx = x * drawMult + 1;
          cy = y * drawMult + 1;
          srcIdx = (cy * bmpWidth + cx) * 4;
          a = elemAt d (srcIdx + 3)
      in if a = Some 0 then (cd[y * widthPx + x := 0], cu)
         else
           (let r = elemAt d (srcIdx + 0);
                g = elemAt d (srcIdx + 1);
                b = elemAt d (srcIdx + 2);
                key = colorKey r g b
            in (cd[y * widthPx + x := packRGB r g b], bumpColor key cu)))"

text \<open>One chunk of \<open>buildCenterPixelIndex\<close> (lines 263-293).\<close>

definition indexChunk :: "nat \<Rightarrow> chunkKey \<Rightarrow> ImageData \<Rightarrow> Template \<Rightarrow> Template" where
  "indexChunk drawMult key bmp this =
     (let bmpWidth = width bmp;
          bmpHeight = height bmp;
          chunkWidthPx = bmpWidth div drawMult;
          chunkHeightPx = bmpHeight div drawMult;
          tplImage = getImageData bmp;
          res = fold (\<lambda>y. fold (\<lambda>x. indexCenterPixel drawMult bmpWidth chunkWidthPx
                                         (data tplImage) y x)
                                [0..<chunkWidthPx])
                     [0..<chunkHeightPx]
                     (replicate (chunkWidthPx * chunkHeightPx) 0, colorsUsed this)
      in this\<lparr> colorsUsed := snd res,
               centerPixelIndex :=
                 AList.update key \<lparr> chunkWidthPx = chunkWidthPx, chunkHeightPx = chunkHeightPx,
                                    centerData = fst res \<rparr>
                   (centerPixelIndex this) \<rparr>)"

text \<open>\<open>buildCenterPixelIndex(drawMult)\<close>, for a positive \<open>drawMult\<close>. The keys are
  \<open>Object.keys(this.chunked)\<close>, each bitmap is \<open>this.chunked[key]\<close>.\<close>

definition buildCenterPixelIndex :: "nat \<Rightarrow> Template \<Rightarrow> Template" where
  "buildCenterPixelIndex drawMult this =
     (let this1 = this\<lparr>centerPixelIndex := [], colorsUsed := []\<rparr>
      in case chunked this1 of
           None \<Rightarrow> this1
         | Some ch \<Rightarrow>
             (let this2 = fold (\<lambda>key t. case map_of ch key of
                                           None \<Rightarrow> t
                                         | Some bmp \<Rightarrow> indexChunk drawMult key bmp t)
                               (map fst ch) this1
              in this2\<lparr>activeColors := Some (set (map fst (colorsUsed this2)))\<rparr>))"

section \<open>The colour compositor (\<open>drawTemplateOnTile\<close>, lines 750-800)\<close>

text \<open>The values of the counter of \<open>for (let i = from; i < bound; i += step)\<close>, for a
  positive \<open>step\<close>.\<close>

function stepsFrom :: "nat \<Rightarrow> nat \<Rightarrow> nat \<Rightarrow> nat list" where
  "stepsFrom i bound step =
     (if i < bound \<and> 0 < step then i # stepsFrom (i + step) bound step else [])"
  by pat_completeness auto
termination
  by (relation "measure (\<lambda>(i, bound, step). bound - i)") auto

declare stepsFrom.simps [simp del]

text \<open>Lines 784-792: alpha 0 on the 3x3 block around \<open>(x, y)\<close>, inside the bitmap.\<close>

definition blankBlock :: "nat \<Rightarrow> nat \<Rightarrow> nat \<Rightarrow> nat \<Rightarrow> u8 list \<Rightarrow> u8 list" where
  "blankBlock bw bh y x =
     fold (\<lambda>dy. fold (\<lambda>dx d.
                        let xx = int x + dx; yy = int y + dy
                        in if xx < 0 \<or> yy < 0 \<or> xx \<ge> int bw \<or> yy \<ge> int bh then d
                           else (let ii = (nat yy * bw + nat xx) * 4 in d[ii + 3 := 0]))
                     [-1, 0, 1])
          [-1, 0, 1]"

text \<open>Lines 775-793, the body of the loops at the centre \<open>(x, y)\<close>.\<close>

definition maskPixel :: "string set \<Rightarrow> nat \<Rightarrow> nat \<Rightarrow> nat \<Rightarrow> nat \<Rightarrow> u8 list \<Rightarrow> u8 list" where
  "maskPixel ac bw bh y x d =
     (let idx = (y * bw + x) * 4;
          a = elemAt d (idx + 3)
      in if a = Some 0 then d
         else
           (let r = elemAt d (idx + 0);
                g = elemAt d (idx + 1);
                b = elemAt d (idx + 2);
                key = colorKey r g b
            in if key \<notin> ac then blankBlock bw bh y x d else d))"

text \<open>Lines 773-795, the two loops over the centres, on \<open>img.data\<close>.\<close>

definition maskLoops :: "nat \<Rightarrow> string set \<Rightarrow> nat \<Rightarrow> nat \<Rightarrow> u8 list \<Rightarrow> u8 list" where
  "maskLoops drawMult ac bw bh =
     fold (\<lambda>y. fold (\<lambda>x. maskPixel ac bw bh y x) (stepsFrom 1 bw drawMult))
          (stepsFrom 1 bh drawMult)"

text \<open>
  Lines 767-796: the canvas \<open>c\<close> with the masked copy \<open>img\<close> of the bitmap put
  back on it. \<open>getImageData\<close> of an empty rectangle throws the \<open>IndexSizeError\<close>.
  The loops step by \<open>drawMult\<close>; with \<open>drawMult = 0\<close> and a bitmap more than one
  pixel high they never end, the value \<open>None\<close>.
\<close>

definition maskBitmap :: "nat \<Rightarrow> string set \<Rightarrow> ImageData \<Rightarrow> (error + ImageData) option" where
  "maskBitmap drawMult ac bmp =
     (let bw = width bmp; bh = height bmp
      in if bw = 0 \<or> bh = 0 then Some (Inl IndexSizeError)
         else
           (let img = getImageData bmp
            in if drawMult = 0 \<and> 1 < bh then None
               else Some (Inr (putImageData
                                 (img\<lparr>data := maskLoops drawMult ac bw bh (data img)\<rparr>)))))"

text \<open>
  One chunk of one template in the loop at lines 751-799. What is handed to
  \<open>context.drawImage\<close> is \<open>Drawn image x y\<close>; \<open>Skipped\<close> is the \<open>continue\<close>. The
  template is returned with the result: nothing in the loop assigns to it or to
  its bitmaps.
\<close>

datatype drawn = Skipped | Drawn ImageData nat nat

definition compositeChunk ::
  "nat \<Rightarrow> Template \<Rightarrow> chunkKey \<Rightarrow> ImageData
     \<Rightarrow> ((error \<times> Template) + (Template \<times> drawn)) option" where
  "compositeChunk drawMult tpl tileKey bmp =
     (let px = fst (snd (snd tileKey)); py = snd (snd (snd tileKey))
      in case activeColors tpl of
           None \<Rightarrow> Some (Inr (tpl, Drawn bmp (px * drawMult) (py * drawMult)))
         | Some ac \<Rightarrow>
             if ac = {} then Some (Inr (tpl, Skipped))
             else (case maskBitmap drawMult ac bmp of
                     None \<Rightarrow> None
                   | Some (Inl e) \<Rightarrow> Some (Inl (e, tpl))
                   | Some (Inr c) \<Rightarrow>
                       Some (Inr (tpl, Drawn c (px * drawMult) (py * drawMult)))))"

section \<open>Sequences of operations on a template\<close>

text \<open>
  What the manager and the overlay do to a \<open>Template\<close> object after its
  construction: diffs of either path, the two resets, chunking, assignments of
  \<open>chunked\<close> and \<open>activeColors\<close>, and the two index builders. After a call that
  throws, the object stays as it was at the throw.
\<close>

datatype templateOp =
    DiffLegacy nat nat ImageData tileKey
  | DiffOptimized nat ImageData tileKey
  | ResetPlaced
  | ResetWrong
  | CreateTiles ImageData
  | SetChunked "(chunkKey \<times> ImageData) list option"
  | BuildTileIndex
  | BuildCenterPixelIndex nat
  | SetActiveColors "string set option"

fun applyOp :: "templateOp \<Rightarrow> Template \<Rightarrow> Template" where
  "applyOp (DiffLegacy T dm snap tc) t = stateOf (diffTileLegacy T dm snap tc t)"
| "applyOp (DiffOptimized T snap tc) t = diffTileOptimized T snap tc t"
| "applyOp ResetPlaced t = resetPlacedPixels t"
| "applyOp ResetWrong t = resetWrongPixels t"
| "applyOp (CreateTiles bitmap) t =
     (case createTemplateTiles t bitmap of Inl (e, t') \<Rightarrow> t' | Inr (t', tiles) \<Rightarrow> t')"
| "applyOp (SetChunked ch) t = t\<lparr>chunked := ch\<rparr>"
| "applyOp BuildTileIndex t = buildTileIndex t"
| "applyOp (BuildCenterPixelIndex dm) t = buildCenterPixelIndex dm t"
| "applyOp (SetActiveColors ac) t = t\<lparr>activeColors := ac\<rparr>"

definition runOps :: "templateOp list \<Rightarrow> Template \<Rightarrow> Template" where
  "runOps ops t = fold applyOp ops t"

section \<open>Example data\<close>

text \<open>
  A one-pixel source image whose pixel is opaque black; the chunk bitmap
  \<open>createTemplateTiles\<close> makes of it (3x3, only the centre keeps its alpha); the
  template that \<open>TemplateManager.createTemplate\<close> ends with for that image at
  coordinates \<open>(0, 0, 0, 0)\<close>; and a snapshot of tile \<open>(0, 0)\<close> whose first pixel
  is opaque black, every other pixel transparent.
\<close>

definition blackPixel :: ImageData where
  "blackPixel = \<lparr> width = 1, height = 1, data = [0, 0, 0, 255] \<rparr>"

definition blackChunk :: ImageData where
  "blackChunk = \<lparr> width = 3, height = 3,
      data = [0, 0, 0, 0,  0, 0, 0, 0,    0, 0, 0, 0,
              0, 0, 0, 0,  0, 0, 0, 255,  0, 0, 0, 0,
              0, 0, 0, 0,  0, 0, 0, 0,    0, 0, 0, 0] \<rparr>"

definition blackTemplate :: Template where
  "blackTemplate =
     \<lparr> sortID = 0, coords = (0, 0, 0, 0), chunked = Some [((0, 0, 0, 0), blackChunk)],
       tileSize = 1000, pixelCount = 1, placedPixelKeys = {}, wrongPixelKeys = {},
       colorsUsed = [(''0,0,0'', 1)], activeColors = Some {''0,0,0''},
       centerPixelIndex = [((0, 0, 0, 0),
          \<lparr> chunkWidthPx = 1, chunkHeightPx = 1, centerData = [0] \<rparr>)],
       tileIndex = [((0, 0), [(0, 0, 0, 0)])] \<rparr>"

definition blackSnapshot :: ImageData where
  "blackSnapshot = \<lparr> width = 1000, height = 1000,
                      data = [0, 0, 0, 255] @ replicate 3999996 0 \<rparr>"

text \<open>
  A one-pixel source image whose pixel is half transparent, as the file gives it,
  and the chunk bitmap \<open>createTemplateTiles\<close> stores for it: the red channel comes
  back from the store as 199.
\<close>

definition tintedPixel :: ImageData where
  "tintedPixel = \<lparr> width = 1, height = 1, data = [200, 100, 50, 128] \<rparr>"

definition tintedChunk :: ImageData where
  "tintedChunk = \<lparr> width = 3, height = 3,
      data = [0, 0, 0, 0,  0, 0, 0, 0,         0, 0, 0, 0,
              0, 0, 0, 0,  199, 100, 50, 128,  0, 0, 0, 0,
              0, 0, 0, 0,  0, 0, 0, 0,         0, 0, 0, 0] \<rparr>"

section \<open>Notions used in the proofs\<close>

text \<open>
  A diff is a sequence of assignments of a mark to a key: \<open>applyMarks m\<close> sets every
  key of the domain of \<open>m\<close> to its mark and leaves the other keys alone.
  \<open>indexPart\<close> is the template without its two sets. \<open>marksOnly t0 f\<close> says that on
  every template with the index part of \<open>t0\<close> the update \<open>f\<close> is one \<open>applyMarks\<close>;
  \<open>marksOrThrow\<close> is the same for an update that may throw.
\<close>

datatype mark = Placed | Wrong | Unplaced

definition applyMarks :: "(string \<rightharpoonup> mark) \<Rightarrow> Template \<Rightarrow> Template" where
  "applyMarks m t =
     t\<lparr> placedPixelKeys :=
          {k. case m k of None \<Rightarrow> k \<in> placedPixelKeys t | Some s \<Rightarrow> s = Placed},
        wrongPixelKeys :=
          {k. case m k of None \<Rightarrow> k \<in> wrongPixelKeys t | Some s \<Rightarrow> s = Wrong} \<rparr>"

definition indexPart :: "Template \<Rightarrow> Template" where
  "indexPart t = t\<lparr> placedPixelKeys := {}, wrongPixelKeys := {} \<rparr>"

definition marksOnly :: "Template \<Rightarrow> (Template \<Rightarrow> Template) \<Rightarrow> bool" where
  "marksOnly t0 f = (\<exists>m. \<forall>t. indexPart t = indexPart t0 \<longrightarrow> f t = applyMarks m t)"

definition marksOrThrow ::
  "Template \<Rightarrow> (Template \<Rightarrow> (error \<times> Template) + Template) \<Rightarrow> bool" where
  "marksOrThrow t0 f =
     (\<exists>m. (\<forall>t. indexPart t = indexPart t0 \<longrightarrow> f t = Inr (applyMarks m t)) \<or>
          (\<forall>t. indexPart t = indexPart t0 \<longrightarrow> f t = Inl (TypeError, applyMarks m t)))"

definition disjointKeys :: "Template \<Rightarrow> bool" where
  "disjointKeys t = (placedPixelKeys t \<inter> wrongPixelKeys t = {})"

definition keySets :: "Template \<Rightarrow> string set \<times> string set" where
  "keySets t = (placedPixelKeys t, wrongPixelKeys t)"

text \<open>
  The segments \<open>(pixel, drawSize)\<close> that a loop of \<open>createTemplateTiles\<close> visits from
  \<open>p\<close> on, for an image extent \<open>len\<close> placed at coordinate \<open>c\<close>: the loop's test and
  step, without its body.
\<close>

function segments :: "nat \<Rightarrow> nat \<Rightarrow> nat \<Rightarrow> nat \<Rightarrow> (nat \<times> nat) list" where
  "segments T c len p =
     (if p < len + c \<and> c \<le> p \<and> 0 < T
      then (p, min (T - p mod T) (len - (p - c)))
             # segments T c len (p + min (T - p mod T) (len - (p - c)))
      else [])"
  by pat_completeness auto
termination
proof (relation "measure (\<lambda>(T, c, len, p). len + c - p)")
  show "wf (measure (\<lambda>(T, c, len, p). len + c - p))" by simp
next
  fix T c len p :: nat
  assume a: "p < len + c \<and> c \<le> p \<and> 0 < T"
  then have "p mod T < T" by simp
  with a show "((T, c, len, p + min (T - p mod T) (len - (p - c))), (T, c, len, p))
                 \<in> measure (\<lambda>(T, c, len, p). len + c - p)"
    by (simp add: min_def) arith
qed

declare segments.simps [simp del]

text \<open>
  The two chunk loops over given lists of segments, and the invariant of the packed
  index they build: every entry belongs to a pair of segments and has their sizes.
\<close>

definition chunkLoops ::
  "nat \<times> nat \<times> nat \<times> nat \<Rightarrow> ImageData \<Rightarrow> (nat \<times> nat) list \<Rightarrow> (nat \<times> nat) list
     \<Rightarrow> Template \<times> (chunkKey \<times> ImageData) list \<Rightarrow> Template \<times> (chunkKey \<times> ImageData) list"
  where
  "chunkLoops co bitmap segsY segsX =
     fold (\<lambda>segY. fold (\<lambda>segX. makeChunk co bitmap (fst segX) (fst segY) (snd segX) (snd segY))
                        segsX) segsY"

definition chunkEntries ::
  "nat \<times> nat \<times> nat \<times> nat \<Rightarrow> (nat \<times> nat) list \<Rightarrow> (nat \<times> nat) list
     \<Rightarrow> Template \<times> (chunkKey \<times> ImageData) list \<Rightarrow> bool" where
  "chunkEntries co segsY segsX st =
     (\<forall>k info. map_of (centerPixelIndex (fst st)) k = Some info \<longrightarrow>
        (\<exists>px py. k = templateTileKey co px py \<and> (px, chunkWidthPx info) \<in> set segsX
                 \<and> (py, chunkHeightPx info) \<in> set segsY))"

text \<open>
  A well-formed image has four bytes for each of its pixels. \<open>rebuiltInfo\<close> is the
  entry that \<open>buildCenterPixelIndex(3)\<close> computes from a bitmap, written with the
  inline loop; \<open>indexMatches\<close> says that the packed index is the rebuilt entry of
  every stored bitmap, key by key and in the same order.
\<close>

definition wfImage :: "ImageData \<Rightarrow> bool" where
  "wfImage img = (length (data img) = 4 * (width img * height img))"

definition rebuiltInfo :: "ImageData \<Rightarrow> CenterInfo" where
  "rebuiltInfo bmp = inlineCenterInfo (width bmp) (height bmp) (data (getImageData bmp))"

definition indexMatches :: "Template \<times> (chunkKey \<times> ImageData) list \<Rightarrow> bool" where
  "indexMatches st =
     (centerPixelIndex (fst st) = map (\<lambda>kb. (fst kb, rebuiltInfo (snd kb))) (snd st)
      \<and> distinct (map fst (snd st)))"

section \<open>Properties of the diff engine\<close>

lemma deleteIfHas_eq [simp]: "deleteIfHas key s = s - {key}"
  by (auto simp: deleteIfHas_def)

lemma addIfMissing_eq [simp]: "addIfMissing key s = insert key s"
  by (auto simp: addIfMissing_def)

text \<open>
  C1. At a template pixel \<open>(x, y)\<close> of a chunk whose destination lies in the tile,
  the optimized path applies the four-way rule to the packed values
  \<open>tplVal = centerData[y * chunkWidthPx + x]\<close> and
  \<open>baseVal = basePacked[dstY * tileSize + dstX]\<close>: template value 0 leaves the
  template untouched; otherwise live value 0 removes the key of the global
  coordinate from both sets; otherwise equal values put it in \<open>placed\<close> and out of
  \<open>wrong\<close>; otherwise it goes in \<open>wrong\<close> and out of \<open>placed\<close>.
\<close>

theorem diffPixelOptimized_four_way:
  assumes "pox + x < T" and "poy + y < T"
  shows
    "let tplVal = elemAt (centerData ci) (y * chunkWidthPx ci + x);
         baseVal = elemAt basePacked ((poy + y) * T + (pox + x));
         key = pixelKey (tx * T + (pox + x)) (ty * T + (poy + y));
         t' = diffPixelOptimized T basePacked (tx, ty) (kx, ky, pox, poy) ci y x t
     in (if tplVal = Some 0 then t' = t
         else if baseVal = Some 0 then
           t' = t\<lparr> placedPixelKeys := placedPixelKeys t - {key},
                    wrongPixelKeys := wrongPixelKeys t - {key} \<rparr>
         else if baseVal = tplVal then
           t' = t\<lparr> placedPixelKeys := insert key (placedPixelKeys t),
                    wrongPixelKeys := wrongPixelKeys t - {key} \<rparr>
         else
           t' = t\<lparr> wrongPixelKeys := insert key (wrongPixelKeys t),
                    placedPixelKeys := placedPixelKeys t - {key} \<rparr>)"
  using assms
  by (simp add: diffPixelOptimized_def Let_def markUnplaced_def markPlaced_def markWrong_def)

theorem diffPixelOptimized_four_way_witness:
  "(0::nat) + 0 < 2 \<and> (1::nat) + 0 < 2 \<and>
   diffPixelOptimized 2 [0, 0, 0xFF0000, 0] (3, 4) (3, 4, 0, 1)
       \<lparr> chunkWidthPx = 1, chunkHeightPx = 1, centerData = [0xFF0000] \<rparr> 0 0
       (newTemplate 0 (3, 4, 0, 1) 2)
     = (newTemplate 0 (3, 4, 0, 1) 2)\<lparr> placedPixelKeys := {''6,9''}, wrongPixelKeys := {} \<rparr>"
proof -
  have k: "pixelKey 6 9 = ''6,9''" by code_simp
  show ?thesis
    using diffPixelOptimized_four_way [of 0 0 2 1 0
        "\<lparr> chunkWidthPx = 1, chunkHeightPx = 1, centerData = [0xFF0000] \<rparr>"
        "[0, 0, 0xFF0000, 0]" 3 4 3 4 "newTemplate 0 (3, 4, 0, 1) 2"]
    by (simp add: Let_def elemAt_def k newTemplate_def)
qed

subsection \<open>Diffs as assignments of marks\<close>

lemma applyMarks_empty: "applyMarks Map.empty t = t"
  by (simp add: applyMarks_def)

lemma applyMarks_applyMarks: "applyMarks m2 (applyMarks m1 t) = applyMarks (m1 ++ m2) t"
  by (cases t) (auto simp: applyMarks_def map_add_def split: option.splits)

lemma indexPart_applyMarks [simp]: "indexPart (applyMarks m t) = indexPart t"
  by (simp add: applyMarks_def indexPart_def)

lemma markUnplaced_marks: "markUnplaced key t = applyMarks [key \<mapsto> Unplaced] t"
  by (cases t) (auto simp: markUnplaced_def applyMarks_def)

lemma markPlaced_marks: "markPlaced key t = applyMarks [key \<mapsto> Placed] t"
  by (cases t) (auto simp: markPlaced_def applyMarks_def)

lemma markWrong_marks: "markWrong key t = applyMarks [key \<mapsto> Wrong] t"
  by (cases t) (auto simp: markWrong_def applyMarks_def)

lemma marksOnly_id: "marksOnly t0 (\<lambda>t. t)"
  unfolding marksOnly_def by (rule exI [of _ Map.empty]) (simp add: applyMarks_empty)

lemma marksOnly_marks: "marksOnly t0 (applyMarks m)"
  unfolding marksOnly_def by blast

lemma marksOnly_comp:
  assumes "marksOnly t0 f" and "marksOnly t0 g"
  shows "marksOnly t0 (\<lambda>t. g (f t))"
proof -
  from assms obtain mf mg where
    f: "\<And>t. indexPart t = indexPart t0 \<Longrightarrow> f t = applyMarks mf t" and
    g: "\<And>t. indexPart t = indexPart t0 \<Longrightarrow> g t = applyMarks mg t"
    unfolding marksOnly_def by blast
  have "g (f t) = applyMarks (mf ++ mg) t" if "indexPart t = indexPart t0" for t
    using that by (simp add: f g applyMarks_applyMarks)
  then show ?thesis unfolding marksOnly_def by blast
qed

lemma marksOnly_fold:
  assumes "\<And>x. x \<in> set xs \<Longrightarrow> marksOnly t0 (g x)"
  shows "marksOnly t0 (fold g xs)"
  using assms
proof (induction xs)
  case Nil
  show ?case using marksOnly_id by (simp add: id_def)
next
  case (Cons x xs)
  have "marksOnly t0 (\<lambda>t. fold g xs (g x t))"
    by (rule marksOnly_comp) (simp_all add: Cons)
  then show ?case by (simp add: comp_def)
qed

lemma marksOnly_idem:
  assumes "marksOnly t f"
  shows "f (f t) = f t"
proof -
  from assms obtain m where
    m: "\<And>t'. indexPart t' = indexPart t \<Longrightarrow> f t' = applyMarks m t'"
    unfolding marksOnly_def by blast
  have "f t = applyMarks m t" by (simp add: m)
  moreover have "f (applyMarks m t) = applyMarks m (applyMarks m t)" by (simp add: m)
  moreover have "m ++ m = m" by (simp add: map_add_def fun_eq_iff split: option.splits)
  ultimately show ?thesis by (simp add: applyMarks_applyMarks)
qed

lemma marksOnly_if:
  assumes "marksOnly t0 f" and "marksOnly t0 g"
  shows "marksOnly t0 (\<lambda>t. if c then f t else g t)"
  using assms by (cases c) simp_all

lemma marksOnly_diffPixelOptimized:
  "marksOnly t0 (diffPixelOptimized T basePacked tileAbs tileKey centerInfo y x)"
  unfolding diffPixelOptimized_def Let_def markUnplaced_marks markPlaced_marks markWrong_marks
  by (intro marksOnly_if marksOnly_id marksOnly_marks)

lemma marksOnly_diffChunkOptimized:
  "marksOnly t0 (diffChunkOptimized T basePacked tileAbs tileKey centerInfo)"
  unfolding diffChunkOptimized_def
  by (intro marksOnly_fold marksOnly_diffPixelOptimized)

lemma marksOnly_cong:
  assumes "marksOnly t0 g" and "\<And>t. indexPart t = indexPart t0 \<Longrightarrow> f t = g t"
  shows "marksOnly t0 f"
proof -
  from assms(1) obtain m where "\<forall>t. indexPart t = indexPart t0 \<longrightarrow> g t = applyMarks m t"
    unfolding marksOnly_def by blast
  with assms(2) have "\<forall>t. indexPart t = indexPart t0 \<longrightarrow> f t = applyMarks m t" by simp
  then show ?thesis unfolding marksOnly_def by blast
qed

lemma indexPart_fields:
  assumes "indexPart t = indexPart t0"
  shows "centerPixelIndex t = centerPixelIndex t0" "tileIndex t = tileIndex t0" "chunked t = chunked t0"
  using assms unfolding indexPart_def
  by (cases t, cases t0, simp)+

lemma marksOnly_diffTemplateOptimized:
  "marksOnly t0 (diffTemplateOptimized T basePacked tileCoords)"
proof -
  define ks where "ks = (case map_of (tileIndex t0) tileCoords of Some ks \<Rightarrow> ks | None \<Rightarrow> [])"
  define step where "step = (\<lambda>tileKey t. case map_of (centerPixelIndex t0) tileKey of
                   None \<Rightarrow> t
                 | Some centerInfo \<Rightarrow> diffChunkOptimized T basePacked tileCoords tileKey centerInfo t)"
  define step' where "step' = (\<lambda>tileKey t. case map_of (centerPixelIndex t) tileKey of
                   None \<Rightarrow> t
                 | Some centerInfo \<Rightarrow> diffChunkOptimized T basePacked tileCoords tileKey centerInfo t)"
  have s: "marksOnly t0 (step k)" for k
    unfolding step_def by (cases "map_of (centerPixelIndex t0) k") (simp_all add: marksOnly_id marksOnly_diffChunkOptimized)
  have s': "marksOnly t0 (step' k)" for k
  proof (rule marksOnly_cong [OF s [of k]])
    fix t assume "indexPart t = indexPart t0"
    then show "step' k t = step k t"
      using indexPart_fields(1) [of t t0] by (simp add: step_def step'_def)
  qed
  have "marksOnly t0 (fold step' ks)"
    by (rule marksOnly_fold) (rule s')
  then show ?thesis
  proof (rule marksOnly_cong)
    fix t assume "indexPart t = indexPart t0"
    then show "diffTemplateOptimized T basePacked tileCoords t = fold step' ks t"
      using indexPart_fields(2) [of t t0] by (simp add: diffTemplateOptimized_def ks_def step'_def)
  qed
qed

lemma diffTileOptimized_idem:
  "diffTileOptimized T snap tc (diffTileOptimized T snap tc t) = diffTileOptimized T snap tc t"
  unfolding diffTileOptimized_def Let_def
  by (rule marksOnly_idem) (rule marksOnly_diffTemplateOptimized)

lemma marksOnly_diffPixelLegacy:
  "marksOnly t0 (diffPixelLegacy T drawMult baseImage tileAbs tileKey tplImage y x)"
  unfolding diffPixelLegacy_def Let_def markUnplaced_marks markPlaced_marks markWrong_marks
  by (intro marksOnly_if marksOnly_id marksOnly_marks)

lemma marksOnly_diffChunkLegacy:
  "marksOnly t0 (diffChunkLegacy T drawMult baseImage tileAbs tileKey bmp)"
  unfolding diffChunkLegacy_def Let_def
  by (intro marksOnly_fold marksOnly_diffPixelLegacy)

lemma marksOrThrow_diffKeysLegacy:
  "marksOrThrow t0 (diffKeysLegacy T drawMult baseImage tileCoords ks)"
proof (induction ks)
  case Nil
  have "\<forall>t. indexPart t = indexPart t0 \<longrightarrow>
          diffKeysLegacy T drawMult baseImage tileCoords [] t = Inr (applyMarks Map.empty t)"
    by (simp add: applyMarks_empty)
  then show ?case unfolding marksOrThrow_def by blast
next
  case (Cons k ks)
  show ?case
  proof (cases "chunked t0")
    case None
    have "\<forall>t. indexPart t = indexPart t0 \<longrightarrow>
            diffKeysLegacy T drawMult baseImage tileCoords (k # ks) t
              = Inl (TypeError, applyMarks Map.empty t)"
    proof (intro allI impI)
      fix t assume "indexPart t = indexPart t0"
      then show "diffKeysLegacy T drawMult baseImage tileCoords (k # ks) t
              = Inl (TypeError, applyMarks Map.empty t)"
        using indexPart_fields(3) [of t t0] None by (simp add: applyMarks_empty)
    qed
    then show ?thesis unfolding marksOrThrow_def by blast
  next
    case (Some ch)
    show ?thesis
    proof (cases "map_of ch k")
      case None
      have "\<forall>t. indexPart t = indexPart t0 \<longrightarrow>
              diffKeysLegacy T drawMult baseImage tileCoords (k # ks) t
                = Inl (TypeError, applyMarks Map.empty t)"
      proof (intro allI impI)
        fix t assume "indexPart t = indexPart t0"
        then show "diffKeysLegacy T drawMult baseImage tileCoords (k # ks) t
                = Inl (TypeError, applyMarks Map.empty t)"
          using indexPart_fields(3) [of t t0] None Some by (simp add: applyMarks_empty)
      qed
      then show ?thesis unfolding marksOrThrow_def by blast
    next
      case bmp: (Some bmp)
      obtain m1 where m1: "\<And>t. indexPart t = indexPart t0 \<Longrightarrow>
          diffChunkLegacy T drawMult baseImage tileCoords k bmp t = applyMarks m1 t"
        using marksOnly_diffChunkLegacy [of t0 T drawMult baseImage tileCoords k bmp]
        unfolding marksOnly_def by blast
      have step: "diffKeysLegacy T drawMult baseImage tileCoords (k # ks) t
                    = diffKeysLegacy T drawMult baseImage tileCoords ks (applyMarks m1 t)"
        if "indexPart t = indexPart t0" for t
        using that indexPart_fields(3) [of t t0] Some bmp by (simp add: m1)
      from Cons.IH obtain m2 where
        "(\<forall>t. indexPart t = indexPart t0 \<longrightarrow>
             diffKeysLegacy T drawMult baseImage tileCoords ks t = Inr (applyMarks m2 t)) \<or>
         (\<forall>t. indexPart t = indexPart t0 \<longrightarrow>
             diffKeysLegacy T drawMult baseImage tileCoords ks t = Inl (TypeError, applyMarks m2 t))"
        unfolding marksOrThrow_def by blast
      then have
        "(\<forall>t. indexPart t = indexPart t0 \<longrightarrow>
             diffKeysLegacy T drawMult baseImage tileCoords (k # ks) t
               = Inr (applyMarks (m1 ++ m2) t)) \<or>
         (\<forall>t. indexPart t = indexPart t0 \<longrightarrow>
             diffKeysLegacy T drawMult baseImage tileCoords (k # ks) t
               = Inl (TypeError, applyMarks (m1 ++ m2) t))"
        using step by (auto simp: applyMarks_applyMarks simp del: diffKeysLegacy.simps)
      then show ?thesis unfolding marksOrThrow_def by blast
    qed
  qed
qed

lemma marksOrThrow_diffTemplateLegacy:
  "marksOrThrow t0 (diffTemplateLegacy T drawMult baseImage tileCoords)"
proof -
  define ks where "ks = (case map_of (tileIndex t0) tileCoords of Some ks \<Rightarrow> ks | None \<Rightarrow> [])"
  have eq: "diffTemplateLegacy T drawMult baseImage tileCoords t
              = diffKeysLegacy T drawMult baseImage tileCoords ks t"
    if "indexPart t = indexPart t0" for t
    using that indexPart_fields(2) [of t t0] by (simp add: diffTemplateLegacy_def ks_def)
  from marksOrThrow_diffKeysLegacy [of t0 T drawMult baseImage tileCoords ks]
  show ?thesis unfolding marksOrThrow_def by (simp add: eq)
qed

lemma marksOrThrow_idem:
  assumes "marksOrThrow t f"
  shows "f (stateOf (f t)) = f t"
proof -
  have mm: "m ++ m = m" for m :: "string \<rightharpoonup> mark"
    by (simp add: map_add_def fun_eq_iff split: option.splits)
  from assms obtain m where
    "(\<forall>t'. indexPart t' = indexPart t \<longrightarrow> f t' = Inr (applyMarks m t')) \<or>
     (\<forall>t'. indexPart t' = indexPart t \<longrightarrow> f t' = Inl (TypeError, applyMarks m t'))"
    unfolding marksOrThrow_def by blast
  then show ?thesis
  proof
    assume a: "\<forall>t'. indexPart t' = indexPart t \<longrightarrow> f t' = Inr (applyMarks m t')"
    then have "f t = Inr (applyMarks m t)" by simp
    moreover from a have "f (applyMarks m t) = Inr (applyMarks m (applyMarks m t))" by simp
    ultimately show ?thesis by (simp add: stateOf_def applyMarks_applyMarks mm)
  next
    assume a: "\<forall>t'. indexPart t' = indexPart t \<longrightarrow> f t' = Inl (TypeError, applyMarks m t')"
    then have "f t = Inl (TypeError, applyMarks m t)" by simp
    moreover from a have "f (applyMarks m t) = Inl (TypeError, applyMarks m (applyMarks m t))" by simp
    ultimately show ?thesis by (simp add: stateOf_def applyMarks_applyMarks mm)
  qed
qed

lemma diffTileLegacy_idem:
  "diffTileLegacy T dm snap tc (stateOf (diffTileLegacy T dm snap tc t)) = diffTileLegacy T dm snap tc t"
  unfolding diffTileLegacy_def Let_def
  by (rule marksOrThrow_idem) (rule marksOrThrow_diffTemplateLegacy)

lemma disjointKeys_applyMarks: "disjointKeys t \<Longrightarrow> disjointKeys (applyMarks m t)"
  by (auto simp: disjointKeys_def applyMarks_def split: option.splits)

lemma marksOnly_disjoint: "marksOnly t f \<Longrightarrow> disjointKeys t \<Longrightarrow> disjointKeys (f t)"
  unfolding marksOnly_def using disjointKeys_applyMarks by force

lemma marksOrThrow_disjoint: "marksOrThrow t f \<Longrightarrow> disjointKeys t \<Longrightarrow> disjointKeys (stateOf (f t))"
  unfolding marksOrThrow_def stateOf_def using disjointKeys_applyMarks by force

text \<open>
  C3. Running the diff of a tile a second time on the same snapshot changes nothing:
  the template after the second run is the template after the first, sets included.
  For the legacy path, which may throw, the second run ends as the first did
  (returned or thrown) with the same template.
\<close>

theorem diffTile_idempotent:
  "diffTileOptimized T snap tc (diffTileOptimized T snap tc t) = diffTileOptimized T snap tc t \<and>
   diffTileLegacy T dm snap tc (stateOf (diffTileLegacy T dm snap tc t))
     = diffTileLegacy T dm snap tc t"
  by (simp add: diffTileOptimized_idem diffTileLegacy_idem)

subsection \<open>The two sets stay disjoint\<close>

lemma keySets_updates [simp]:
  "keySets (t\<lparr>pixelCount := n\<rparr>) = keySets t"
  "keySets (t\<lparr>activeColors := ac\<rparr>) = keySets t"
  "keySets (t\<lparr>chunked := ch\<rparr>) = keySets t"
  "keySets (t\<lparr>tileIndex := ti\<rparr>) = keySets t"
  "keySets (t\<lparr>centerPixelIndex := ci\<rparr>) = keySets t"
  "keySets (t\<lparr>colorsUsed := cu\<rparr>) = keySets t"
  by (simp_all add: keySets_def)

lemma keySets_makeChunk:
  "keySets (fst (makeChunk co bitmap pixelX pixelY drawSizeX drawSizeY st)) = keySets (fst st)"
  by (simp add: makeChunk_def Let_def)

lemma keySets_xLoop:
  "keySets (fst (xLoop T co bitmap pixelY drawSizeY pixelX st)) = keySets (fst st)"
proof (induction T co bitmap pixelY drawSizeY pixelX st rule: xLoop.induct)
  case (1 T co bitmap pixelY drawSizeY pixelX st)
  show ?case
  proof (cases "pixelX < width bitmap + fst (snd (snd co)) \<and> fst (snd (snd co)) \<le> pixelX \<and> 0 < T")
    case True
    have "xLoop T co bitmap pixelY drawSizeY pixelX st =
          xLoop T co bitmap pixelY drawSizeY
            (pixelX + min (T - pixelX mod T) (width bitmap - (pixelX - fst (snd (snd co)))))
            (makeChunk co bitmap pixelX pixelY
               (min (T - pixelX mod T) (width bitmap - (pixelX - fst (snd (snd co)))))
               drawSizeY st)"
      using True by (subst xLoop.simps) (rule if_P)
    then show ?thesis
      using "1.IH" [OF True] by (simp add: keySets_makeChunk)
  next
    case False
    then have "xLoop T co bitmap pixelY drawSizeY pixelX st = st"
      by (subst xLoop.simps) (rule if_not_P)
    then show ?thesis by simp
  qed
qed

lemma keySets_yLoop:
  "keySets (fst (yLoop T co bitmap pixelY st)) = keySets (fst st)"
proof (induction T co bitmap pixelY st rule: yLoop.induct)
  case (1 T co bitmap pixelY st)
  show ?case
  proof (cases "pixelY < height bitmap + snd (snd (snd co)) \<and> snd (snd (snd co)) \<le> pixelY \<and> 0 < T")
    case True
    have "yLoop T co bitmap pixelY st =
          yLoop T co bitmap
            (pixelY + min (T - pixelY mod T) (height bitmap - (pixelY - snd (snd (snd co)))))
            (xLoop T co bitmap pixelY
               (min (T - pixelY mod T) (height bitmap - (pixelY - snd (snd (snd co)))))
               (fst (snd (snd co))) st)"
      using True by (subst yLoop.simps) (rule if_P)
    then show ?thesis
      using "1.IH" [OF True] by (simp add: keySets_xLoop)
  next
    case False
    then have "yLoop T co bitmap pixelY st = st"
      by (subst yLoop.simps) (rule if_not_P)
    then show ?thesis by simp
  qed
qed

lemma keySets_createTemplateTiles:
  "keySets (case createTemplateTiles t bitmap of Inl (e, t') \<Rightarrow> t' | Inr (t', tiles) \<Rightarrow> t') = keySets t"
proof -
  define st where "st = yLoop (tileSize t) (coords t) bitmap (snd (snd (snd (coords t))))
                       (t\<lparr>pixelCount := width bitmap * height bitmap\<rparr>, [])"
  have k: "keySets (fst st) = keySets t"
    unfolding st_def by (simp add: keySets_yLoop)
  show ?thesis
  proof (cases "tileSize t = 0 \<and> 0 < width bitmap \<and> 0 < height bitmap")
    case True
    then show ?thesis by (simp add: createTemplateTiles_def Let_def)
  next
    case False
    show ?thesis
    proof (cases "colorsUsed (fst st) = []")
      case True
      with False k show ?thesis
        by (simp add: createTemplateTiles_def Let_def st_def [symmetric] case_prod_beta)
    next
      case ne: False
      show ?thesis
      proof (cases "activeColors (fst st)")
        case None
        with False ne k show ?thesis
          by (simp add: createTemplateTiles_def Let_def st_def [symmetric])
      next
        case (Some ac)
        with False ne k show ?thesis
          by (simp add: createTemplateTiles_def Let_def st_def [symmetric])
      qed
    qed
  qed
qed

lemma keySets_indexChunk: "keySets (indexChunk dm key bmp t) = keySets t"
  by (simp add: indexChunk_def Let_def)

lemma keySets_indexChunks:
  "keySets (fold (\<lambda>key t. case map_of ch key of None \<Rightarrow> t
                                  | Some bmp \<Rightarrow> indexChunk dm key bmp t) ks t0) = keySets t0"
proof (induction ks arbitrary: t0)
  case Nil
  show ?case by simp
next
  case (Cons k ks)
  show ?case
    by (cases "map_of ch k") (simp_all add: Cons.IH keySets_indexChunk)
qed

lemma keySets_buildCenterPixelIndex: "keySets (buildCenterPixelIndex dm t) = keySets t"
proof (cases "chunked t")
  case None
  then show ?thesis by (simp add: buildCenterPixelIndex_def Let_def)
next
  case (Some ch)
  then show ?thesis by (simp add: buildCenterPixelIndex_def Let_def keySets_indexChunks)
qed

lemma keySets_buildTileIndex: "keySets (buildTileIndex t) = keySets t"
  by (cases "chunked t") (simp_all add: buildTileIndex_def)

lemma disjointKeys_keySets: "keySets t' = keySets t \<Longrightarrow> disjointKeys t \<Longrightarrow> disjointKeys t'"
  by (simp add: keySets_def disjointKeys_def)

lemma disjointKeys_diffTileLegacy:
  "disjointKeys t \<Longrightarrow> disjointKeys (stateOf (diffTileLegacy T dm snap tc t))"
  unfolding diffTileLegacy_def Let_def
  by (rule marksOrThrow_disjoint [OF marksOrThrow_diffTemplateLegacy])

lemma disjointKeys_diffTileOptimized:
  "disjointKeys t \<Longrightarrow> disjointKeys (diffTileOptimized T snap tc t)"
  unfolding diffTileOptimized_def Let_def
  by (rule marksOnly_disjoint [OF marksOnly_diffTemplateOptimized])

lemma disjointKeys_applyOp:
  assumes "disjointKeys t"
  shows "disjointKeys (applyOp op t)"
proof (cases op)
  case (DiffLegacy T dm snap tc)
  then show ?thesis using assms by (simp add: disjointKeys_diffTileLegacy)
next
  case (DiffOptimized T snap tc)
  then show ?thesis using assms by (simp add: disjointKeys_diffTileOptimized)
next
  case ResetPlaced
  then show ?thesis by (simp add: disjointKeys_def resetPlacedPixels_def)
next
  case ResetWrong
  then show ?thesis by (simp add: disjointKeys_def resetWrongPixels_def)
next
  case (CreateTiles bitmap)
  then show ?thesis
    using disjointKeys_keySets [OF keySets_createTemplateTiles assms, of bitmap] by simp
next
  case (SetChunked ch)
  then show ?thesis using assms by (simp add: disjointKeys_def)
next
  case BuildTileIndex
  then show ?thesis
    using disjointKeys_keySets [OF keySets_buildTileIndex assms] by simp
next
  case (BuildCenterPixelIndex dm)
  then show ?thesis
    using disjointKeys_keySets [OF keySets_buildCenterPixelIndex assms, of dm] by simp
next
  case (SetActiveColors ac)
  then show ?thesis using assms by (simp add: disjointKeys_def)
qed

lemma disjointKeys_runOps: "disjointKeys t \<Longrightarrow> disjointKeys (runOps ops t)"
  unfolding runOps_def by (induction ops arbitrary: t) (simp_all add: disjointKeys_applyOp)

text \<open>
  C4. After any sequence of operations on a template from its construction (diffs of
  either path on any tiles and snapshots, resets, chunking and index rebuilds in
  between), no key is in both \<open>placedPixelKeys\<close> and \<open>wrongPixelKeys\<close>.
\<close>

theorem placed_wrong_disjoint:
  "placedPixelKeys (runOps ops (newTemplate sid co ts))
     \<inter> wrongPixelKeys (runOps ops (newTemplate sid co ts)) = {}"
proof -
  have "disjointKeys (newTemplate sid co ts)" by (simp add: disjointKeys_def newTemplate_def)
  then have "disjointKeys (runOps ops (newTemplate sid co ts))" by (rule disjointKeys_runOps)
  then show ?thesis by (simp add: disjointKeys_def)
qed

section \<open>The premultiplied store\<close>

lemma uint_u8: "0 \<le> uint (w :: u8)" "uint (w :: u8) \<le> 255"
  using uint_lt2p [of w] by simp_all

lemma uint_word_of_int_u8: "0 \<le> k \<Longrightarrow> k \<le> 255 \<Longrightarrow> uint (word_of_int k :: u8) = k"
  by (simp add: uint_word_of_int_eq take_bit_int_eq_self)

lemma premul_int:
  fixes c a :: int
  assumes "0 \<le> c" and "c \<le> 255" and "0 \<le> a"
  shows "0 \<le> (c * a + 127) div 255" and "(c * a + 127) div 255 \<le> a"
proof -
  have "0 \<le> c * a" using assms by simp
  then show "0 \<le> (c * a + 127) div 255" by simp
  have "c * a \<le> 255 * a" using assms by (intro mult_right_mono)
  then have "c * a + 127 < 255 * (a + 1)" by arith
  then have "(c * a + 127) div 255 < a + 1"
    by (simp add: div_less_iff_less_mult mult.commute)
  then show "(c * a + 127) div 255 \<le> a" by simp
qed

lemma uint_premultiply: "uint (premultiply a c) = (uint c * uint a + 127) div 255"
proof -
  have "0 \<le> (uint c * uint a + 127) div 255" "(uint c * uint a + 127) div 255 \<le> uint a"
    by (rule premul_int; simp add: uint_u8)+
  moreover have "uint a \<le> 255" by (rule uint_u8)
  ultimately show ?thesis by (simp add: premultiply_def uint_word_of_int_u8)
qed

lemma premultiply_le: "uint (premultiply a c) \<le> uint a"
  unfolding uint_premultiply by (rule premul_int; simp add: uint_u8)

lemma round_trip_int:
  fixes p a :: int
  assumes "0 \<le> p" and "p \<le> a" and "0 < a" and "a \<le> 255"
  shows "0 \<le> (p * 255 + a div 2) div a" and "(p * 255 + a div 2) div a \<le> 255"
    and "((p * 255 + a div 2) div a * a + 127) div 255 = p"
proof -
  define n where "n = p * 255 + a div 2"
  define q where "q = n div a * a"
  have n0: "0 \<le> n" using assms by (simp add: n_def)
  have e: "n = q + n mod a" by (simp add: q_def)
  have m: "0 \<le> n mod a" "n mod a < a" using assms(3) by simp_all
  have q1: "q \<le> n" and q2: "n < q + a" using e m by arith+
  show "0 \<le> (p * 255 + a div 2) div a" using n0 assms(3) by (simp add: n_def pos_imp_zdiv_nonneg_iff)
  have "n < 256 * a" using assms unfolding n_def by arith
  with q1 have "n div a * a < 256 * a" by (simp add: q_def)
  then have "n div a < 256" using assms(3) by (simp only: mult_less_cancel_right_pos)
  then show "(p * 255 + a div 2) div a \<le> 255" by (simp add: n_def)
  have lo: "p * 255 \<le> q + 127" using q2 assms(3,4) unfolding n_def by arith
  have hi: "q + 127 < (p + 1) * 255" using q1 assms(3,4) unfolding n_def by arith
  have "(q + 127) div 255 = p"
  proof (rule int_div_pos_eq [where r = "q + 127 - 255 * p"])
    show "q + 127 = 255 * p + (q + 127 - 255 * p)" by simp
    show "0 \<le> q + 127 - 255 * p" using lo by simp
    show "q + 127 - 255 * p < 255" using hi by (simp add: algebra_simps)
  qed
  then show "((p * 255 + a div 2) div a * a + 127) div 255 = p" by (simp add: q_def n_def)
qed

lemma premultiply_unpremultiply:
  assumes "uint p \<le> uint a"
  shows "premultiply a (unpremultiply a p) = p"
proof (cases "a = 0")
  case True
  with assms have "uint p = 0" using uint_u8(1) [of p] by simp
  then have "p = 0" by (simp add: uint_0_iff)
  with True show ?thesis by (simp add: premultiply_def unpremultiply_def)
next
  case False
  then have a: "0 < uint a" using uint_u8(1) [of a] by (simp add: uint_0_iff order_less_le)
  have a255: "uint a \<le> 255" by (rule uint_u8)
  let ?u = "(uint p * 255 + uint a div 2) div uint a"
  from round_trip_int [OF uint_u8(1) assms a a255]
  have u0: "0 \<le> ?u" and u: "?u \<le> 255" and r: "(?u * uint a + 127) div 255 = uint p"
    by simp_all
  have "uint (unpremultiply a p) = ?u"
    using False u0 u by (simp add: unpremultiply_def uint_word_of_int_u8)
  then have "uint (premultiply a (unpremultiply a p)) = uint p"
    by (simp add: uint_premultiply r)
  then show ?thesis by (simp add: word_uint_eq_iff)
qed

lemma stored_idem: "stored a (stored a c) = stored a c"
  unfolding stored_def by (simp add: premultiply_unpremultiply premultiply_le)

lemma stored_opaque: "stored 255 c = c"
proof -
  have "uint (premultiply 255 c) = uint c" by (simp add: uint_premultiply)
  then have p: "premultiply 255 c = c" by (simp add: word_uint_eq_iff)
  have "(uint c * 255 + 127) div 255 = uint c" by simp
  moreover have "0 \<le> uint c" "uint c \<le> 255" by (rule uint_u8)+
  ultimately have "uint (unpremultiply 255 c) = uint c"
    by (simp add: unpremultiply_def uint_word_of_int_u8)
  then have "unpremultiply 255 c = c" by (simp add: word_uint_eq_iff)
  with p show ?thesis by (simp add: stored_def)
qed

lemma stored_transparent: "stored 0 c = 0"
  by (simp add: stored_def unpremultiply_def)

lemma canvasByte_alpha: "canvasByte bmp x y 3 = srcByte bmp x y 3"
  by (simp add: canvasByte_def)

lemma canvasByte_opaque: "srcByte bmp x y 3 = 255 \<Longrightarrow> canvasByte bmp x y c = srcByte bmp x y c"
  by (simp add: canvasByte_def stored_opaque)

section \<open>Reading a drawn image\<close>

lemma length_concat_quads:
  assumes "\<And>i. length (f i) = 4"
  shows "length (concat (map f [0..<n])) = 4 * n"
  by (induction n) (simp_all add: assms)

lemma nth_concat_quads:
  assumes "\<And>i. length (f i) = 4" and "i < n" and "c < 4"
  shows "concat (map f [0..<n]) ! (i * 4 + c) = f i ! c"
  using assms(2)
proof (induction n)
  case 0
  then show ?case by simp
next
  case (Suc n)
  have len: "length (concat (map f [0..<n])) = 4 * n"
    by (rule length_concat_quads) (rule assms(1))
  show ?case
  proof (cases "i < n")
    case True
    then have "i * 4 + c < 4 * n" using assms(3) by simp
    then show ?thesis using Suc.IH [OF True] by (simp add: nth_append len)
  next
    case False
    with Suc.prems have "i = n" by simp
    then show ?thesis by (simp add: nth_append len)
  qed
qed

lemma length_data_drawImage:
  "length (data (drawImage bmp sx sy sw sh dw dh)) = 4 * (dw * dh)"
  by (simp add: drawImage_def length_concat_quads)

lemma elemAt_drawImage:
  assumes "X < dw" and "Y < dh" and "c < 4"
  shows "elemAt (data (drawImage bmp sx sy sw sh dw dh)) ((Y * dw + X) * 4 + c)
           = Some (canvasByte bmp (sx + X * sw div dw) (sy + Y * sh div dh) c)"
proof -
  have i: "Y * dw + X < dw * dh"
  proof -
    have "Y * dw + X < Y * dw + dw" using assms(1) by simp
    also have "\<dots> = (Suc Y) * dw" by simp
    also have "\<dots> \<le> dh * dw" using assms(2) by (intro mult_le_mono1) simp
    finally show ?thesis by (simp add: mult.commute)
  qed
  have m: "(Y * dw + X) mod dw = X" "(Y * dw + X) div dw = Y"
    using assms(1) by simp_all
  have "(Y * dw + X) * 4 + c < 4 * (dw * dh)" using i assms(3) by simp
  moreover have "concat (map (\<lambda>i. map (canvasByte bmp (sx + (i mod dw) * sw div dw)
                                                 (sy + (i div dw) * sh div dh)) [0..<4])
                          [0..<dw * dh]) ! ((Y * dw + X) * 4 + c)
        = map (canvasByte bmp (sx + ((Y * dw + X) mod dw) * sw div dw)
                           (sy + ((Y * dw + X) div dw) * sh div dh)) [0..<4] ! c"
    by (rule nth_concat_quads) (simp_all add: i assms(3))
  ultimately show ?thesis
    using assms(1,3) by (simp add: elemAt_def length_data_drawImage m) (simp add: drawImage_def m)
qed

lemma elemAt_update_neq: "i \<noteq> j \<Longrightarrow> elemAt (xs[j := v]) i = elemAt xs i"
  by (simp add: elemAt_def)

lemma pixel_index_inject:
  fixes x y x' y' W :: nat
  assumes "y * W + x = y' * W + x'" and "x < W" and "x' < W"
  shows "x = x' \<and> y = y'"
proof -
  have "(y * W + x) mod W = x" "(y' * W + x') mod W = x'" using assms(2,3) by simp_all
  with assms(1) have x: "x = x'" by simp
  have "(y * W + x) div W = y" "(y' * W + x') div W = y'" using assms(2,3) by simp_all
  with assms(1) have "y = y'" by simp
  with x show ?thesis by simp
qed

section \<open>Opaque black\<close>

lemma createTemplateTiles_blackPixel:
  "createTemplateTiles (newTemplate 0 (0, 0, 0, 0) 1000) blackPixel
     = Inr (blackTemplate\<lparr> chunked := None, tileIndex := [((0, 0), [(0, 0, 0, 0)])] \<rparr>,
            [((0, 0, 0, 0), blackChunk)])"
  by code_simp

lemma createTemplate_blackPixel:
  "buildCenterPixelIndex 3 (buildTileIndex
      ((blackTemplate\<lparr> chunked := None \<rparr>)\<lparr>chunked := Some [((0, 0, 0, 0), blackChunk)]\<rparr>))
     = blackTemplate"
  by code_simp

lemma upt_1: "[0..<1] = [0]"
  by (simp add: upt_rec)

lemma diffTemplateOptimized_blackTemplate:
  assumes "0 < T"
  shows "diffTemplateOptimized T basePacked (0, 0) blackTemplate = blackTemplate"
  using assms
  by (simp add: diffTemplateOptimized_def blackTemplate_def diffChunkOptimized_def
      diffPixelOptimized_def Let_def elemAt_def)

lemma getImageData_blackChunk: "getImageData blackChunk = blackChunk"
  by code_simp

lemma pixelKey_0_0: "pixelKey 0 0 = ''0,0''"
  by code_simp

lemma diffPixelLegacy_blackChunk:
  assumes "elemAt (data baseImage) 12004 = Some 0"
    and "elemAt (data baseImage) 12005 = Some 0"
    and "elemAt (data baseImage) 12006 = Some 0"
    and "elemAt (data baseImage) 12007 = Some 255"
  shows "diffPixelLegacy 1000 3 baseImage (0, 0) (0, 0, 0, 0) blackChunk 0 0 t
           = markPlaced ''0,0'' t"
proof -
  have t: "elemAt (data blackChunk) 16 = Some 0" "elemAt (data blackChunk) 17 = Some 0"
    "elemAt (data blackChunk) 18 = Some 0" "elemAt (data blackChunk) 19 = Some 255"
    "width blackChunk = 3"
    by (simp_all add: blackChunk_def elemAt_def)
  show ?thesis
    by (simp add: diffPixelLegacy_def Let_def pixelKey_0_0 assms t)
qed

lemma srcByte_blackSnapshot:
  "srcByte blackSnapshot 0 0 0 = 0" "srcByte blackSnapshot 0 0 (Suc 0) = 0"
  "srcByte blackSnapshot 0 0 2 = 0" "srcByte blackSnapshot 0 0 3 = 255"
  by (simp_all add: srcByte_def blackSnapshot_def elemAt_def)

lemma baseImage_reads:
  "elemAt (data (drawImage blackSnapshot 0 0 1000 1000 3000 3000)) 12004 = Some 0"
  "elemAt (data (drawImage blackSnapshot 0 0 1000 1000 3000 3000)) 12005 = Some 0"
  "elemAt (data (drawImage blackSnapshot 0 0 1000 1000 3000 3000)) 12006 = Some 0"
  "elemAt (data (drawImage blackSnapshot 0 0 1000 1000 3000 3000)) 12007 = Some 255"
  using elemAt_drawImage [of 1 3000 1 3000 0 blackSnapshot 0 0 1000 1000]
        elemAt_drawImage [of 1 3000 1 3000 1 blackSnapshot 0 0 1000 1000]
        elemAt_drawImage [of 1 3000 1 3000 2 blackSnapshot 0 0 1000 1000]
        elemAt_drawImage [of 1 3000 1 3000 3 blackSnapshot 0 0 1000 1000]
  by (simp_all add: canvasByte_opaque srcByte_blackSnapshot)

lemma diffTileLegacy_blackTemplate:
  "diffTileLegacy 1000 3 blackSnapshot (0, 0) blackTemplate
     = Inr (blackTemplate\<lparr>placedPixelKeys := {''0,0''}\<rparr>)"
proof -
  have w: "width blackSnapshot = 1000" "height blackSnapshot = 1000"
    by (simp_all add: blackSnapshot_def)
  have c: "diffChunkLegacy 1000 3 (drawImage blackSnapshot 0 0 1000 1000 3000 3000)
             (0, 0) (0, 0, 0, 0) blackChunk t = markPlaced ''0,0'' t" for t
    unfolding diffChunkLegacy_def Let_def getImageData_blackChunk
    by (simp add: blackChunk_def upt_1)
       (simp add: diffPixelLegacy_blackChunk [OF baseImage_reads, unfolded blackChunk_def])
  show ?thesis
    unfolding diffTileLegacy_def Let_def w diffTemplateLegacy_def
    by (simp add: blackTemplate_def c [unfolded blackChunk_def] blackChunk_def markPlaced_def)
qed

lemma push_ucast_u8_eq_0:
  assumes "n \<le> 24"
  shows "push_bit n (ucast (b::u8) :: u32) = 0 \<longleftrightarrow> b = 0"
proof
  assume z: "push_bit n (ucast b :: u32) = 0"
  show "b = 0"
  proof (rule ccontr)
    assume "b \<noteq> 0"
    then obtain j where j: "bit b j" by (auto simp: bit_eq_iff)
    then have "j < 8" using bit_imp_le_length [of b j] by simp
    with j assms have "bit (push_bit n (ucast b :: u32)) (n + j)"
      by (simp add: bit_simps)
    with z show False by simp
  qed
qed simp

text \<open>The packed value of three bytes is 0 for black and for no other colour.\<close>

lemma packRGB_eq_0_iff:
  "packRGB (Some r) (Some g) (Some b) = 0 \<longleftrightarrow> r = 0 \<and> g = 0 \<and> b = 0"
  using push_ucast_u8_eq_0 [of 16 r] push_ucast_u8_eq_0 [of 8 g] push_ucast_u8_eq_0 [of 0 b]
  by (simp add: packRGB_def toInt32_def or_eq_0_iff)

text \<open>
  C5. The claim fails on the code for an opaque black pixel. The one-pixel image
  \<open>blackPixel\<close> has alpha 255; chunking it keeps that alpha at the centre of the chunk
  bitmap (byte 19 of \<open>blackChunk\<close>) and counts the colour \<open>0,0,0\<close> in \<open>colorsUsed\<close>,
  yet the packed buffer built inline is \<open>[0]\<close>, and \<open>buildCenterPixelIndex\<close> on the
  stored bitmap gives \<open>[0]\<close> again: the value that stands for no template pixel.
\<close>

theorem opaque_black_packs_to_zero:
  "createTemplateTiles (newTemplate 0 (0, 0, 0, 0) 1000) blackPixel
     = Inr (blackTemplate\<lparr>chunked := None\<rparr>, [((0, 0, 0, 0), blackChunk)]) \<and>
   elemAt (data blackChunk) 19 = Some 255 \<and>
   colorsUsed blackTemplate = [(''0,0,0'', 1)] \<and>
   map_of (centerPixelIndex blackTemplate) (0, 0, 0, 0)
     = Some \<lparr> chunkWidthPx = 1, chunkHeightPx = 1, centerData = [0] \<rparr> \<and>
   buildCenterPixelIndex 3 blackTemplate = blackTemplate"
proof -
  have "buildCenterPixelIndex 3 blackTemplate = blackTemplate" by code_simp
  moreover have "elemAt (data blackChunk) 19 = Some 255"
    by (simp add: blackChunk_def elemAt_def)
  moreover have "blackTemplate\<lparr>chunked := None, tileIndex := [((0, 0), [(0, 0, 0, 0)])]\<rparr>
                   = blackTemplate\<lparr>chunked := None\<rparr>"
    by (simp add: blackTemplate_def)
  ultimately show ?thesis
    using createTemplateTiles_blackPixel by (simp add: blackTemplate_def)
qed

text \<open>
  C2. The two paths disagree on the template of the opaque black pixel (the template
  that chunking and the two index builders produce for \<open>blackPixel\<close>, see
  \<open>createTemplate_blackPixel\<close>) against a snapshot whose pixel at that place is opaque
  black too: the legacy path reads the alpha 255 of the bitmap, finds the colours
  equal and puts the key \<open>0,0\<close> in \<open>placedPixelKeys\<close>; the optimized path reads the
  packed value 0 and skips the pixel.
\<close>

theorem legacy_optimized_differ_on_black:
  "diffTileLegacy 1000 3 blackSnapshot (0, 0) blackTemplate
     = Inr (blackTemplate\<lparr>placedPixelKeys := {''0,0''}\<rparr>) \<and>
   diffTileOptimized 1000 blackSnapshot (0, 0) blackTemplate = blackTemplate"
  by (simp add: diffTileLegacy_blackTemplate diffTileOptimized_def Let_def
        diffTemplateOptimized_blackTemplate)
section \<open>The chunk loops as folds over segments\<close>

lemma xLoop_segments:
  "xLoop T co bitmap pixelY drawSizeY pixelX st =
     fold (\<lambda>seg. makeChunk co bitmap (fst seg) pixelY (snd seg) drawSizeY)
          (segments T (fst (snd (snd co))) (width bitmap) pixelX) st"
proof (induction T co bitmap pixelY drawSizeY pixelX st rule: xLoop.induct)
  case (1 T co bitmap pixelY drawSizeY pixelX st)
  show ?case
  proof (cases "pixelX < width bitmap + fst (snd (snd co)) \<and> fst (snd (snd co)) \<le> pixelX \<and> 0 < T")
    case True
    have u: "xLoop T co bitmap pixelY drawSizeY pixelX st =
          xLoop T co bitmap pixelY drawSizeY
            (pixelX + min (T - pixelX mod T) (width bitmap - (pixelX - fst (snd (snd co)))))
            (makeChunk co bitmap pixelX pixelY
               (min (T - pixelX mod T) (width bitmap - (pixelX - fst (snd (snd co)))))
               drawSizeY st)"
      using True by (subst xLoop.simps) (rule if_P)
    have s: "segments T (fst (snd (snd co))) (width bitmap) pixelX =
          (pixelX, min (T - pixelX mod T) (width bitmap - (pixelX - fst (snd (snd co)))))
            # segments T (fst (snd (snd co))) (width bitmap)
                (pixelX + min (T - pixelX mod T) (width bitmap - (pixelX - fst (snd (snd co)))))"
      using True by (subst segments.simps) (rule if_P)
    show ?thesis
      unfolding u s using "1.IH" [OF True] by simp
  next
    case False
    then have "xLoop T co bitmap pixelY drawSizeY pixelX st = st"
      by (subst xLoop.simps) (rule if_not_P)
    moreover from False have "segments T (fst (snd (snd co))) (width bitmap) pixelX = []"
      by (subst segments.simps) (rule if_not_P)
    ultimately show ?thesis by simp
  qed
qed

lemma yLoop_segments:
  "yLoop T co bitmap pixelY st =
     fold (\<lambda>segY. fold (\<lambda>segX. makeChunk co bitmap (fst segX) (fst segY) (snd segX) (snd segY))
                        (segments T (fst (snd (snd co))) (width bitmap) (fst (snd (snd co)))))
          (segments T (snd (snd (snd co))) (height bitmap) pixelY) st"
proof (induction T co bitmap pixelY st rule: yLoop.induct)
  case (1 T co bitmap pixelY st)
  show ?case
  proof (cases "pixelY < height bitmap + snd (snd (snd co)) \<and> snd (snd (snd co)) \<le> pixelY \<and> 0 < T")
    case True
    have u: "yLoop T co bitmap pixelY st =
          yLoop T co bitmap
            (pixelY + min (T - pixelY mod T) (height bitmap - (pixelY - snd (snd (snd co)))))
            (xLoop T co bitmap pixelY
               (min (T - pixelY mod T) (height bitmap - (pixelY - snd (snd (snd co)))))
               (fst (snd (snd co))) st)"
      using True by (subst yLoop.simps) (rule if_P)
    have s: "segments T (snd (snd (snd co))) (height bitmap) pixelY =
          (pixelY, min (T - pixelY mod T) (height bitmap - (pixelY - snd (snd (snd co)))))
            # segments T (snd (snd (snd co))) (height bitmap)
                (pixelY + min (T - pixelY mod T) (height bitmap - (pixelY - snd (snd (snd co)))))"
      using True by (subst segments.simps) (rule if_P)
    show ?thesis
      unfolding u s using "1.IH" [OF True] by (simp add: xLoop_segments)
  next
    case False
    then have "yLoop T co bitmap pixelY st = st"
      by (subst yLoop.simps) (rule if_not_P)
    moreover from False have "segments T (snd (snd (snd co))) (height bitmap) pixelY = []"
      by (subst segments.simps) (rule if_not_P)
    ultimately show ?thesis by simp
  qed
qed

text \<open>Properties of the segments.\<close>

lemma segments_first:
  assumes "0 < T" and "0 < len"
  shows "segments T c len c =
           (c, min (T - c mod T) len) # segments T c len (c + min (T - c mod T) len)"
  using assms by (subst segments.simps) simp

lemma segments_props:
  assumes "(p, d) \<in> set (segments T c len p0)"
  shows "p0 \<le> p \<and> c \<le> p \<and> p < len + c \<and> 0 < T \<and> 0 < d
         \<and> d = min (T - p mod T) (len - (p - c))"
  using assms
proof (induction T c len p0 rule: segments.induct)
  case (1 T c len p0)
  show ?case
  proof (cases "p0 < len + c \<and> c \<le> p0 \<and> 0 < T")
    case True
    then have s: "segments T c len p0 =
        (p0, min (T - p0 mod T) (len - (p0 - c)))
          # segments T c len (p0 + min (T - p0 mod T) (len - (p0 - c)))"
      by (subst segments.simps) (rule if_P)
    from True have "p0 mod T < T" by simp
    with True have pos: "0 < min (T - p0 mod T) (len - (p0 - c))" by (simp add: min_def)
    from "1.prems" s consider
      "(p, d) = (p0, min (T - p0 mod T) (len - (p0 - c)))"
      | "(p, d) \<in> set (segments T c len (p0 + min (T - p0 mod T) (len - (p0 - c))))"
      by auto
    then show ?thesis
    proof cases
      case 1
      with True pos show ?thesis by simp
    next
      case 2
      from "1.IH" [OF True 2] show ?thesis by simp
    qed
  next
    case False
    then have "segments T c len p0 = []" by (subst segments.simps) (rule if_not_P)
    with "1.prems" show ?thesis by simp
  qed
qed

lemma segments_aligned:
  assumes "(p, d) \<in> set (segments T c len p0)" and "p0 mod T = 0"
  shows "p mod T = 0 \<and> d = min T (len - (p - c))"
  using assms
proof (induction T c len p0 rule: segments.induct)
  case (1 T c len p0)
  show ?case
  proof (cases "p0 < len + c \<and> c \<le> p0 \<and> 0 < T")
    case True
    then have s: "segments T c len p0 =
        (p0, min (T - p0 mod T) (len - (p0 - c)))
          # segments T c len (p0 + min (T - p0 mod T) (len - (p0 - c)))"
      by (subst segments.simps) (rule if_P)
    from "1.prems" s consider
      "(p, d) = (p0, min (T - p0 mod T) (len - (p0 - c)))"
      | "(p, d) \<in> set (segments T c len (p0 + min (T - p0 mod T) (len - (p0 - c))))"
      by auto
    then show ?thesis
    proof cases
      case 1
      with "1.prems"(2) show ?thesis by simp
    next
      case 2
      let ?d0 = "min (T - p0 mod T) (len - (p0 - c))"
      from segments_props [OF 2] have lt: "p0 + ?d0 < len + c" by simp
      with True have "?d0 = T - p0 mod T" by (simp add: min_def split: if_splits)
      with "1.prems"(2) have "(p0 + ?d0) mod T = 0" by simp
      from "1.IH" [OF True 2 this] show ?thesis .
    qed
  next
    case False
    then have "segments T c len p0 = []" by (subst segments.simps) (rule if_not_P)
    with "1.prems" show ?thesis by simp
  qed
qed

lemma segments_tail_aligned:
  assumes "0 < T" and "0 < len"
    and "(p, d) \<in> set (segments T c len (c + min (T - c mod T) len))"
  shows "p mod T = 0 \<and> d = min T (len - (p - c)) \<and> c < p"
proof -
  let ?d0 = "min (T - c mod T) len"
  from assms(1) have m: "c mod T < T" by simp
  from segments_props [OF assms(3)] have lt: "c + ?d0 \<le> p" "p < len + c" by simp_all
  then have "?d0 < len" by simp
  then have "?d0 = T - c mod T" by (simp add: min_def split: if_splits)
  moreover have "(c + (T - c mod T)) mod T = 0"
  proof -
    have "c + (T - c mod T) = (c - c mod T) + T" using m by simp
    also have "\<dots> = T * (c div T) + T" by (simp add: minus_mod_eq_mult_div)
    finally show ?thesis by simp
  qed
  ultimately have "(c + ?d0) mod T = 0" by simp
  from segments_aligned [OF assms(3) this] have "p mod T = 0 \<and> d = min T (len - (p - c))" .
  moreover have "c < p"
  proof -
    from m assms(2) have "0 < ?d0" by (simp add: min_def)
    with lt(1) show ?thesis by arith
  qed
  ultimately show ?thesis by simp
qed

section \<open>The chunks of a fresh template\<close>

lemma yLoop_chunkLoops:
  "yLoop T co bitmap pixelY st =
     chunkLoops co bitmap (segments T (snd (snd (snd co))) (height bitmap) pixelY)
       (segments T (fst (snd (snd co))) (width bitmap) (fst (snd (snd co)))) st"
  by (simp add: chunkLoops_def yLoop_segments)

lemma fold_invariant:
  assumes "\<And>x s. x \<in> set xs \<Longrightarrow> I s \<Longrightarrow> I (f x s)" and "I s"
  shows "I (fold f xs s)"
  using assms by (induction xs arbitrary: s) simp_all

lemma chunkLoops_invariant:
  assumes "\<And>segX segY s. segX \<in> set segsX \<Longrightarrow> segY \<in> set segsY \<Longrightarrow> I s
             \<Longrightarrow> I (makeChunk co bitmap (fst segX) (fst segY) (snd segX) (snd segY) s)"
    and "I s"
  shows "I (chunkLoops co bitmap segsY segsX s)"
  unfolding chunkLoops_def
  by (rule fold_invariant [where I = I], rule fold_invariant [where I = I])
     (simp_all add: assms)

lemma chunkWidthPx_inlineCenterInfo [simp]:
  "chunkWidthPx (inlineCenterInfo (dx * shreadSize) h d) = dx"
  "chunkHeightPx (inlineCenterInfo w (dy * shreadSize) d) = dy"
  by (simp_all add: inlineCenterInfo_def Let_def shreadSize_def)

lemma map_of_centerPixelIndex_makeChunk:
  "map_of (centerPixelIndex (fst (makeChunk co bitmap px py dx dy st)))
     = (map_of (centerPixelIndex (fst st)))
         (templateTileKey co px py \<mapsto>
            inlineCenterInfo (dx * shreadSize) (dy * shreadSize)
              (fst (shred (dx * shreadSize) (dy * shreadSize)
                 (data (drawImage bitmap (px - fst (snd (snd co))) (py - snd (snd (snd co)))
                          dx dy (dx * shreadSize) (dy * shreadSize)),
                  colorsUsed (fst st)))))"
  by (simp add: makeChunk_def Let_def update_conv')

lemma templateTileKey_inject:
  assumes "templateTileKey co px py = templateTileKey co px' py'"
  shows "px = px' \<and> py = py'"
proof -
  from assms have "px div 1000 = px' div 1000" "px mod 1000 = px' mod 1000"
    "py div 1000 = py' div 1000" "py mod 1000 = py' mod 1000"
    by (simp_all add: templateTileKey_def)
  then show ?thesis by (metis div_mult_mod_eq)
qed

lemma chunkEntries_chunkLoops:
  assumes "chunkEntries co segsY segsX st"
  shows "chunkEntries co segsY segsX (chunkLoops co bitmap segsY segsX st)"
proof (rule chunkLoops_invariant [where I = "chunkEntries co segsY segsX"])
  fix segX segY :: "nat \<times> nat" and s
  assume x: "segX \<in> set segsX" and y: "segY \<in> set segsY" and s: "chunkEntries co segsY segsX s"
  show "chunkEntries co segsY segsX
          (makeChunk co bitmap (fst segX) (fst segY) (snd segX) (snd segY) s)"
    unfolding chunkEntries_def map_of_centerPixelIndex_makeChunk
  proof (intro allI impI)
    fix k info
    assume a: "((map_of (centerPixelIndex (fst s)))
         (templateTileKey co (fst segX) (fst segY) \<mapsto>
            inlineCenterInfo (snd segX * shreadSize) (snd segY * shreadSize)
              (fst (shred (snd segX * shreadSize) (snd segY * shreadSize)
                 (data (drawImage bitmap (fst segX - fst (snd (snd co)))
                          (fst segY - snd (snd (snd co)))
                          (snd segX) (snd segY) (snd segX * shreadSize) (snd segY * shreadSize)),
                  colorsUsed (fst s)))))) k = Some info"
    show "\<exists>px py. k = templateTileKey co px py \<and> (px, chunkWidthPx info) \<in> set segsX
                 \<and> (py, chunkHeightPx info) \<in> set segsY"
    proof (cases "k = templateTileKey co (fst segX) (fst segY)")
      case True
      with a have "chunkWidthPx info = snd segX" "chunkHeightPx info = snd segY" by auto
      with x y True show ?thesis by (intro exI [of _ "fst segX"] exI [of _ "fst segY"]) simp
    next
      case False
      with a have "map_of (centerPixelIndex (fst s)) k = Some info" by simp
      with s show ?thesis unfolding chunkEntries_def by blast
    qed
  qed
qed (rule assms)

lemma dom_makeChunk:
  "dom (map_of (centerPixelIndex (fst (makeChunk co bitmap px py dx dy st))))
     = insert (templateTileKey co px py) (dom (map_of (centerPixelIndex (fst st))))"
  by (simp add: map_of_centerPixelIndex_makeChunk)

lemma dom_chunkLoops:
  "dom (map_of (centerPixelIndex (fst (chunkLoops co bitmap segsY segsX st))))
     = dom (map_of (centerPixelIndex (fst st)))
         \<union> {templateTileKey co px py | px py. px \<in> fst ` set segsX \<and> py \<in> fst ` set segsY}"
proof -
  have inner: "dom (map_of (centerPixelIndex (fst (fold
          (\<lambda>segX. makeChunk co bitmap (fst segX) py (snd segX) dy) sx s))))
        = dom (map_of (centerPixelIndex (fst s)))
            \<union> {templateTileKey co px py | px. px \<in> fst ` set sx}" for sx py dy s
  proof (induction sx arbitrary: s)
    case Nil
    show ?case by simp
  next
    case (Cons a sx)
    have "dom (map_of (centerPixelIndex (fst (fold
          (\<lambda>segX. makeChunk co bitmap (fst segX) py (snd segX) dy) (a # sx) s))))
        = insert (templateTileKey co (fst a) py) (dom (map_of (centerPixelIndex (fst s))))
            \<union> {templateTileKey co px py | px. px \<in> fst ` set sx}"
      by (simp add: Cons.IH dom_makeChunk)
    also have "\<dots> = dom (map_of (centerPixelIndex (fst s)))
            \<union> {templateTileKey co px py | px. px \<in> fst ` set (a # sx)}"
      by auto
    finally show ?case .
  qed
  show ?thesis
    unfolding chunkLoops_def
  proof (induction segsY arbitrary: st)
    case Nil
    show ?case by simp
  next
    case (Cons a segsY)
    have "dom (map_of (centerPixelIndex (fst (fold (\<lambda>segY. fold
            (\<lambda>segX. makeChunk co bitmap (fst segX) (fst segY) (snd segX) (snd segY)) segsX)
            (a # segsY) st))))
        = (dom (map_of (centerPixelIndex (fst st)))
            \<union> {templateTileKey co px (fst a) | px. px \<in> fst ` set segsX})
          \<union> {templateTileKey co px py | px py. px \<in> fst ` set segsX \<and> py \<in> fst ` set segsY}"
      by (simp add: Cons.IH inner)
    also have "\<dots> = dom (map_of (centerPixelIndex (fst st)))
         \<union> {templateTileKey co px py | px py.
              px \<in> fst ` set segsX \<and> py \<in> fst ` set (a # segsY)}"
      by (rule set_eqI) (simp, blast)
    finally show ?case .
  qed
qed

lemma activeColors_makeChunk [simp]:
  "activeColors (fst (makeChunk co bitmap px py dx dy st)) = activeColors (fst st)"
  by (simp add: makeChunk_def Let_def)

lemma activeColors_chunkLoops:
  "activeColors (fst (chunkLoops co bitmap segsY segsX st)) = activeColors (fst st)"
  by (rule chunkLoops_invariant [where I = "\<lambda>s. activeColors (fst s) = activeColors (fst st)"])
     simp_all

lemma createTemplateTiles_chunkLoops:
  assumes "0 < tileSize this" and "activeColors this = Some ac"
  shows "createTemplateTiles this bitmap =
     (let st = chunkLoops (coords this) bitmap
                 (segments (tileSize this) (snd (snd (snd (coords this)))) (height bitmap)
                    (snd (snd (snd (coords this)))))
                 (segments (tileSize this) (fst (snd (snd (coords this)))) (width bitmap)
                    (fst (snd (snd (coords this)))))
                 (this\<lparr>pixelCount := width bitmap * height bitmap\<rparr>, [])
      in Inr (if colorsUsed (fst st) = [] then fst st
              else (fst st)\<lparr>activeColors := Some (ac \<union> set (map fst (colorsUsed (fst st))))\<rparr>,
              snd st))"
proof -
  define st where "st = chunkLoops (coords this) bitmap
                 (segments (tileSize this) (snd (snd (snd (coords this)))) (height bitmap)
                    (snd (snd (snd (coords this)))))
                 (segments (tileSize this) (fst (snd (snd (coords this)))) (width bitmap)
                    (fst (snd (snd (coords this)))))
                 (this\<lparr>pixelCount := width bitmap * height bitmap\<rparr>, [])"
  have a: "activeColors (fst st) = Some ac"
    unfolding st_def by (simp add: activeColors_chunkLoops assms(2))
  show ?thesis
    using assms(1) a
    by (simp add: createTemplateTiles_def Let_def yLoop_chunkLoops st_def [symmetric])
qed

lemma createTemplateTiles_fresh:
  assumes "0 < T"
  shows "createTemplateTiles (newTemplate sid co T) bitmap =
     (let st = chunkLoops co bitmap
                 (segments T (snd (snd (snd co))) (height bitmap) (snd (snd (snd co))))
                 (segments T (fst (snd (snd co))) (width bitmap) (fst (snd (snd co))))
                 ((newTemplate sid co T)\<lparr>pixelCount := width bitmap * height bitmap\<rparr>, [])
      in Inr ((fst st)\<lparr>activeColors := Some (set (map fst (colorsUsed (fst st))))\<rparr>, snd st))"
proof -
  define st where "st = chunkLoops co bitmap
                 (segments T (snd (snd (snd co))) (height bitmap) (snd (snd (snd co))))
                 (segments T (fst (snd (snd co))) (width bitmap) (fst (snd (snd co))))
                 ((newTemplate sid co T)\<lparr>pixelCount := width bitmap * height bitmap\<rparr>, [])"
  have a: "activeColors (fst st) = Some {}"
    unfolding st_def by (simp add: activeColors_chunkLoops newTemplate_def)
  have f: "(newTemplate sid co T)\<lparr>pixelCount := width bitmap * height bitmap\<rparr>
             = newTemplate sid co T\<lparr>pixelCount := width bitmap * height bitmap\<rparr>" by simp
  have "createTemplateTiles (newTemplate sid co T) bitmap =
          Inr (if colorsUsed (fst st) = [] then fst st
               else (fst st)\<lparr>activeColors := Some ({} \<union> set (map fst (colorsUsed (fst st))))\<rparr>,
               snd st)"
    using createTemplateTiles_chunkLoops [of "newTemplate sid co T" "{}" bitmap] assms
    by (simp add: newTemplate_def Let_def st_def)
  moreover have "colorsUsed (fst st) = [] \<Longrightarrow>
      (fst st)\<lparr>activeColors := Some (set (map fst (colorsUsed (fst st))))\<rparr> = fst st"
    using a by (cases "fst st") simp
  ultimately show ?thesis
    by (cases "colorsUsed (fst st) = []") (simp_all add: Let_def st_def [symmetric])
qed

lemma hd_update:
  "al \<noteq> [] \<Longrightarrow> AList.update k v al \<noteq> [] \<and> fst (hd (AList.update k v al)) = fst (hd al)"
  by (cases al) auto

lemma hd_centerPixelIndex_makeChunk:
  assumes "centerPixelIndex (fst st) \<noteq> []"
  shows "centerPixelIndex (fst (makeChunk co bitmap px py dx dy st)) \<noteq> [] \<and>
         fst (hd (centerPixelIndex (fst (makeChunk co bitmap px py dx dy st))))
           = fst (hd (centerPixelIndex (fst st)))"
  using hd_update [OF assms] by (simp add: makeChunk_def Let_def)

lemma hd_centerPixelIndex_chunkLoops:
  assumes "centerPixelIndex (fst st) = []"
  shows "centerPixelIndex (fst (chunkLoops co bitmap ((py, dy) # segsY) ((px, dx) # segsX) st)) \<noteq> [] \<and>
         fst (hd (centerPixelIndex (fst (chunkLoops co bitmap ((py, dy) # segsY) ((px, dx) # segsX) st))))
           = templateTileKey co px py"
proof -
  let ?I = "\<lambda>s. centerPixelIndex (fst s) \<noteq> [] \<and>
                 fst (hd (centerPixelIndex (fst s))) = templateTileKey co px py"
  have step: "?I (makeChunk co bitmap a b c d s)" if "?I s" for a b c d s
    using hd_centerPixelIndex_makeChunk [of s co bitmap a b c d] that by simp
  have first: "?I (makeChunk co bitmap px py dx dy st)"
    using assms by (simp add: makeChunk_def Let_def)
  have inner: "?I (fold (\<lambda>segX. makeChunk co bitmap (fst segX) b (snd segX) d) xs s)"
    if "?I s" for xs b d s
    by (rule fold_invariant [where I = ?I]) (simp_all add: step that)
  have outer: "?I (fold (\<lambda>segY. fold (\<lambda>segX. makeChunk co bitmap (fst segX) (fst segY)
                           (snd segX) (snd segY)) xs) ys s)" if "?I s" for xs ys s
    by (rule fold_invariant [where I = ?I]) (simp_all add: inner that)
  have eq: "chunkLoops co bitmap ((py, dy) # segsY) ((px, dx) # segsX) st =
      fold (\<lambda>segY. fold (\<lambda>segX. makeChunk co bitmap (fst segX) (fst segY)
                           (snd segX) (snd segY)) ((px, dx) # segsX)) segsY
        (fold (\<lambda>segX. makeChunk co bitmap (fst segX) py (snd segX) dy) segsX
           (makeChunk co bitmap px py dx dy st))"
    by (simp add: chunkLoops_def)
  show ?thesis
    unfolding eq by (intro outer inner first)
qed

section \<open>Partial tiles and chunk keys\<close>

text \<open>
  The sizes of the chunks follow \<open>tileSize\<close>. Chunking a non-empty image on a fresh
  template: the first chunk (the first entry of the packed index) has the key that
  lines 181-187 give the origin, and its logical width and height are
  \<open>min (T - c mod T) extent\<close> on each axis. Every chunk has the size
  \<open>min (T - p mod T) (remaining extent)\<close> of its segment, and every segment after
  the first of its axis starts on a multiple of \<open>T\<close>.
\<close>

lemma chunk_sizes_follow_tileSize:
  assumes "0 < T" and "0 < width bitmap" and "0 < height bitmap"
  shows "\<exists>t tiles.
      createTemplateTiles (newTemplate sid (c0, c1, c2, c3) T) bitmap = Inr (t, tiles) \<and>
      fst (hd (centerPixelIndex t)) = templateTileKey (c0, c1, c2, c3) c2 c3 \<and>
      (\<exists>info. map_of (centerPixelIndex t) (templateTileKey (c0, c1, c2, c3) c2 c3) = Some info \<and>
         chunkWidthPx info = min (T - c2 mod T) (width bitmap) \<and>
         chunkHeightPx info = min (T - c3 mod T) (height bitmap)) \<and>
      (\<forall>k info. map_of (centerPixelIndex t) k = Some info \<longrightarrow>
         (\<exists>px py. k = templateTileKey (c0, c1, c2, c3) px py \<and> c2 \<le> px \<and> c3 \<le> py \<and>
            chunkWidthPx info = min (T - px mod T) (width bitmap - (px - c2)) \<and>
            chunkHeightPx info = min (T - py mod T) (height bitmap - (py - c3)) \<and>
            (c2 < px \<longrightarrow> px mod T = 0) \<and> (c3 < py \<longrightarrow> py mod T = 0)))"
proof -
  let ?co = "(c0, c1, c2, c3)"
  let ?w = "width bitmap" and ?h = "height bitmap"
  let ?dx = "min (T - c2 mod T) ?w" and ?dy = "min (T - c3 mod T) ?h"
  define restX where "restX = segments T c2 ?w (c2 + ?dx)"
  define restY where "restY = segments T c3 ?h (c3 + ?dy)"
  define segsX where "segsX = segments T c2 ?w c2"
  define segsY where "segsY = segments T c3 ?h c3"
  define st where "st = chunkLoops ?co bitmap segsY segsX
                          ((newTemplate sid ?co T)\<lparr>pixelCount := ?w * ?h\<rparr>, [])"
  define t where "t = (fst st)\<lparr>activeColors := Some (set (map fst (colorsUsed (fst st))))\<rparr>"
  have sx: "segsX = (c2, ?dx) # restX"
    unfolding segsX_def restX_def by (rule segments_first) (rule assms)+
  have sy: "segsY = (c3, ?dy) # restY"
    unfolding segsY_def restY_def by (rule segments_first) (rule assms)+
  have res: "createTemplateTiles (newTemplate sid ?co T) bitmap = Inr (t, snd st)"
    using createTemplateTiles_fresh [OF assms(1), of sid ?co bitmap]
    by (simp add: Let_def t_def st_def segsX_def segsY_def)
  have cpi: "centerPixelIndex t = centerPixelIndex (fst st)" by (simp add: t_def)
  let ?k0 = "templateTileKey ?co c2 c3"
  have hd: "fst (hd (centerPixelIndex (fst st))) = ?k0"
    using hd_centerPixelIndex_chunkLoops
            [of "((newTemplate sid ?co T)\<lparr>pixelCount := ?w * ?h\<rparr>, [])" ?co bitmap c3 ?dy restY c2 ?dx restX]
    by (simp add: st_def sx sy newTemplate_def)
  have ent: "chunkEntries ?co segsY segsX st"
    unfolding st_def
    by (rule chunkEntries_chunkLoops) (simp add: chunkEntries_def newTemplate_def)
  have segX: "c2 \<le> px \<and> d = min (T - px mod T) (?w - (px - c2)) \<and> (c2 < px \<longrightarrow> px mod T = 0)"
    if "(px, d) \<in> set segsX" for px d
  proof -
    from that segments_props [of px d T c2 ?w c2]
    have p: "c2 \<le> px \<and> d = min (T - px mod T) (?w - (px - c2))" by (simp add: segsX_def)
    from that sx consider "px = c2" | "(px, d) \<in> set restX" by auto
    then have "c2 < px \<longrightarrow> px mod T = 0"
    proof cases
      case 1
      then show ?thesis by simp
    next
      case 2
      then show ?thesis
        using segments_tail_aligned [OF assms(1,2), of px d c2] by (simp add: restX_def)
    qed
    with p show ?thesis by simp
  qed
  have segY: "c3 \<le> py \<and> d = min (T - py mod T) (?h - (py - c3)) \<and> (c3 < py \<longrightarrow> py mod T = 0)"
    if "(py, d) \<in> set segsY" for py d
  proof -
    from that segments_props [of py d T c3 ?h c3]
    have p: "c3 \<le> py \<and> d = min (T - py mod T) (?h - (py - c3))" by (simp add: segsY_def)
    from that sy consider "py = c3" | "(py, d) \<in> set restY" by auto
    then have "c3 < py \<longrightarrow> py mod T = 0"
    proof cases
      case 1
      then show ?thesis by simp
    next
      case 2
      then show ?thesis
        using segments_tail_aligned [OF assms(1,3), of py d c3] by (simp add: restY_def)
    qed
    with p show ?thesis by simp
  qed
  have all: "\<exists>px py. k = templateTileKey ?co px py \<and> c2 \<le> px \<and> c3 \<le> py \<and>
            chunkWidthPx info = min (T - px mod T) (?w - (px - c2)) \<and>
            chunkHeightPx info = min (T - py mod T) (?h - (py - c3)) \<and>
            (c2 < px \<longrightarrow> px mod T = 0) \<and> (c3 < py \<longrightarrow> py mod T = 0)"
    if "map_of (centerPixelIndex (fst st)) k = Some info" for k info
  proof -
    from ent that obtain px py where
      k: "k = templateTileKey ?co px py" and x: "(px, chunkWidthPx info) \<in> set segsX"
      and y: "(py, chunkHeightPx info) \<in> set segsY"
      unfolding chunkEntries_def by blast
    from segX [OF x] segY [OF y] k show ?thesis
      by (intro exI [of _ px] exI [of _ py]) simp
  qed
  have "?k0 \<in> dom (map_of (centerPixelIndex (fst st)))"
    unfolding st_def dom_chunkLoops sx sy by simp blast
  then obtain info where info: "map_of (centerPixelIndex (fst st)) ?k0 = Some info" by blast
  from all [OF info] obtain px py where
    k: "?k0 = templateTileKey ?co px py"
    and d: "chunkWidthPx info = min (T - px mod T) (?w - (px - c2))"
           "chunkHeightPx info = min (T - py mod T) (?h - (py - c3))"
    by blast
  from templateTileKey_inject [OF k] have "px = c2" "py = c3" by simp_all
  with d have first: "chunkWidthPx info = ?dx \<and> chunkHeightPx info = ?dy" by simp
  show ?thesis
    apply (rule exI [of _ t], rule exI [of _ "snd st"])
    apply (simp only: cpi)
    apply (intro conjI)
        apply (rule res)
      apply (rule hd)
     apply (rule exI [of _ info], simp add: info first)
    apply (intro allI impI, erule all)
    done
qed

lemma segments_2000_1500: "segments 2000 1000 1500 1000 = [(1000, 1000), (2000, 500)]"
  by code_simp

lemma segments_2000_2: "segments 2000 0 2 0 = [(0, 2)]"
  by code_simp

text \<open>
  C7. With \<open>tileSize = 2000\<close> and an image 1500 pixels wide whose origin is pixel
  \<open>(1000, 0)\<close> of tile \<open>(0, 0)\<close>, not on a tile boundary, the first chunk is
  1000 pixels wide, \<open>min (2000 - 1000 mod 2000) 1500\<close>, as the claim says, but its
  key is \<open>0001,0000,000,000\<close>: the source takes the pixel offset modulo the literal
  1000, so the first chunk has the local pixel offset \<open>(0, 0)\<close> and the tile next
  to the one the origin lies in.
\<close>

theorem first_chunk_key_drops_offset:
  "\<exists>t tiles info.
     createTemplateTiles (newTemplate 0 (0, 0, 1000, 0) 2000)
       \<lparr> width = 1500, height = 2, data = replicate 12000 255 \<rparr> = Inr (t, tiles) \<and>
     (1000::nat) mod 2000 = 1000 \<and>
     fst (hd (centerPixelIndex t)) = (1, 0, 0, 0) \<and>
     dom (map_of (centerPixelIndex t)) = {(1, 0, 0, 0), (2, 0, 0, 0)} \<and>
     map_of (centerPixelIndex t) (1, 0, 0, 0) = Some info \<and>
     chunkWidthPx info = min (2000 - 1000 mod 2000) 1500 \<and>
     chunkWidthPx info = 1000 \<and>
     templateTileName (1, 0, 0, 0) = ''0001,0000,000,000''"
proof -
  let ?img = "\<lparr> width = 1500, height = 2, data = replicate 12000 255 \<rparr>"
  let ?co = "(0, 0, 1000, 0) :: nat \<times> nat \<times> nat \<times> nat"
  define st where "st = chunkLoops ?co ?img [(0, 2)] [(1000, 1000), (2000, 500)]
                          ((newTemplate 0 ?co 2000)\<lparr>pixelCount := 1500 * 2\<rparr>, [])"
  define t where "t = (fst st)\<lparr>activeColors := Some (set (map fst (colorsUsed (fst st))))\<rparr>"
  have res: "createTemplateTiles (newTemplate 0 ?co 2000) ?img = Inr (t, snd st)"
    using createTemplateTiles_fresh [of 2000 0 ?co ?img]
    by (simp add: Let_def t_def st_def segments_2000_1500 segments_2000_2)
  have cpi: "centerPixelIndex t = centerPixelIndex (fst st)" by (simp add: t_def)
  have k0: "templateTileKey ?co 1000 0 = (1, 0, 0, 0)" by (simp add: templateTileKey_def)
  have hd: "fst (hd (centerPixelIndex (fst st))) = (1, 0, 0, 0)"
    using hd_centerPixelIndex_chunkLoops
            [of "((newTemplate 0 ?co 2000)\<lparr>pixelCount := 1500 * 2\<rparr>, [])" ?co ?img
                0 2 "[]" 1000 1000 "[(2000, 500)]"]
    by (simp add: st_def k0 newTemplate_def)
  have "{templateTileKey ?co px py | px py.
          px \<in> fst ` set [(1000, 1000), (2000, 500 :: nat)] \<and> py \<in> fst ` set [(0, 2 :: nat)]}
        = {templateTileKey ?co 1000 0, templateTileKey ?co 2000 0}"
    by auto
  also have "\<dots> = {(1, 0, 0, 0), (2, 0, 0, 0)}"
    by (simp add: templateTileKey_def numeral_2_eq_2)
  finally have d: "dom (map_of (centerPixelIndex (fst st))) = {(1, 0, 0, 0), (2, 0, 0, 0)}"
    unfolding st_def dom_chunkLoops by (simp add: newTemplate_def)
  then obtain info where info: "map_of (centerPixelIndex (fst st)) (1, 0, 0, 0) = Some info"
    by blast
  have ent: "chunkEntries ?co [(0, 2)] [(1000, 1000), (2000, 500)] st"
    unfolding st_def
    by (rule chunkEntries_chunkLoops) (simp add: chunkEntries_def newTemplate_def)
  with info obtain px py where
    k: "(1, 0, 0, 0) = templateTileKey ?co px py"
    and x: "(px, chunkWidthPx info) \<in> set [(1000, 1000), (2000, 500)]"
    unfolding chunkEntries_def by blast
  from k have "px div 1000 = 1" by (simp add: templateTileKey_def)
  with x have w: "chunkWidthPx info = 1000" by auto
  have n: "templateTileName (1, 0, 0, 0) = ''0001,0000,000,000''" by code_simp
  show ?thesis
    apply (rule exI [of _ t], rule exI [of _ "snd st"], rule exI [of _ info])
    apply (simp only: cpi)
    apply (intro conjI)
           apply (rule res)
          apply simp
         apply (rule hd)
        apply (rule d)
       apply (rule info)
      apply (simp add: w)
     apply (rule w)
    apply (rule n)
    done
qed

lemma segments_500_600: "segments 500 0 600 0 = [(0, 500), (500, 100)]"
  by code_simp

lemma segments_500_2: "segments 500 0 2 0 = [(0, 2)]"
  by code_simp

text \<open>
  C8. With \<open>tileSize = 500\<close> and a 600 pixels wide image at \<open>(0, 0, 0, 0)\<close> the
  second chunk starts at pixel 500. Its key is \<open>0000,0000,500,000\<close>: the source
  divides by the literal 1000, not by \<open>tileSize\<close>, so the pixel offset 500 is not
  below the tile size and no chunk has the key \<open>0001,0000,000,000\<close> that the claim
  gives that segment.
\<close>

theorem key_uses_1000_not_tileSize:
  "\<exists>t tiles info.
     createTemplateTiles (newTemplate 0 (0, 0, 0, 0) 500)
       \<lparr> width = 600, height = 2, data = replicate 4800 255 \<rparr> = Inr (t, tiles) \<and>
     dom (map_of (centerPixelIndex t)) = {(0, 0, 0, 0), (0, 0, 500, 0)} \<and>
     map_of (centerPixelIndex t) (0, 0, 500, 0) = Some info \<and>
     chunkWidthPx info = 100 \<and>
     templateTileName (0, 0, 500, 0) = ''0000,0000,500,000'' \<and>
     ((0::nat) + 500 div 500, (0::nat) + 0 div 500, (500::nat) mod 500, (0::nat) mod 500)
       = (1, 0, 0, 0) \<and>
     map_of (centerPixelIndex t) (1, 0, 0, 0) = None"
proof -
  let ?img = "\<lparr> width = 600, height = 2, data = replicate 4800 255 \<rparr>"
  let ?co = "(0, 0, 0, 0) :: nat \<times> nat \<times> nat \<times> nat"
  define st where "st = chunkLoops ?co ?img [(0, 2)] [(0, 500), (500, 100)]
                          ((newTemplate 0 ?co 500)\<lparr>pixelCount := 600 * 2\<rparr>, [])"
  define t where "t = (fst st)\<lparr>activeColors := Some (set (map fst (colorsUsed (fst st))))\<rparr>"
  have res: "createTemplateTiles (newTemplate 0 ?co 500) ?img = Inr (t, snd st)"
    using createTemplateTiles_fresh [of 500 0 ?co ?img]
    by (simp add: Let_def t_def st_def segments_500_600 segments_500_2)
  have cpi: "centerPixelIndex t = centerPixelIndex (fst st)" by (simp add: t_def)
  have "{templateTileKey ?co px py | px py.
          px \<in> fst ` set [(0, 500), (500, 100 :: nat)] \<and> py \<in> fst ` set [(0, 2 :: nat)]}
        = {templateTileKey ?co 0 0, templateTileKey ?co 500 0}"
    by auto
  also have "\<dots> = {(0, 0, 0, 0), (0, 0, 500, 0)}"
    by (simp add: templateTileKey_def)
  finally have d: "dom (map_of (centerPixelIndex (fst st))) = {(0, 0, 0, 0), (0, 0, 500, 0)}"
    unfolding st_def dom_chunkLoops by (simp add: newTemplate_def)
  then obtain info where info: "map_of (centerPixelIndex (fst st)) (0, 0, 500, 0) = Some info"
    by blast
  have ent: "chunkEntries ?co [(0, 2)] [(0, 500), (500, 100)] st"
    unfolding st_def
    by (rule chunkEntries_chunkLoops) (simp add: chunkEntries_def newTemplate_def)
  with info obtain px py where
    k: "(0, 0, 500, 0) = templateTileKey ?co px py"
    and x: "(px, chunkWidthPx info) \<in> set [(0, 500), (500, 100)]"
    unfolding chunkEntries_def by blast
  from k have "px mod 1000 = 500" by (simp add: templateTileKey_def)
  with x have w: "chunkWidthPx info = 100" by auto
  have n: "templateTileName (0, 0, 500, 0) = ''0000,0000,500,000''" by code_simp
  have none: "map_of (centerPixelIndex (fst st)) (1, 0, 0, 0) = None"
    using d by (metis domIff insert_iff empty_iff prod.inject zero_neq_one)
  show ?thesis
    apply (rule exI [of _ t], rule exI [of _ "snd st"], rule exI [of _ info])
    apply (simp only: cpi)
    apply (intro conjI)
          apply (rule res)
         apply (rule d)
        apply (rule info)
       apply (rule w)
      apply (rule n)
     apply simp
    apply (rule none)
    done
qed

section \<open>Rebuilding the packed index\<close>

lemma srcByte_in_range:
  assumes "x < width bmp" and "y < height bmp" and "c < 4" and "wfImage bmp"
  shows "srcByte bmp x y c = data bmp ! ((y * width bmp + x) * 4 + c)"
proof -
  have "y * width bmp + x < Suc y * width bmp" using assms(1) by simp
  also have "\<dots> \<le> height bmp * width bmp"
    using assms(2) by (intro mult_le_mono1) simp
  finally have "y * width bmp + x < width bmp * height bmp" by (simp add: mult.commute)
  with assms(3) have "(y * width bmp + x) * 4 + c < 4 * (width bmp * height bmp)" by simp
  with assms show ?thesis by (simp add: srcByte_def elemAt_def wfImage_def)
qed

lemma elemAt_getImageData:
  assumes "x < width bmp" and "y < height bmp" and "c < 4"
  shows "elemAt (data (getImageData bmp)) ((y * width bmp + x) * 4 + c)
           = Some (canvasByte bmp x y c)"
proof -
  have "x * width bmp div width bmp = x" "y * height bmp div height bmp = y"
    using assms(1,2) by simp_all
  with elemAt_drawImage [OF assms, of bmp 0 0 "width bmp" "height bmp"]
  show ?thesis by (simp add: getImageData_def)
qed

lemma putImageData_eq: "putImageData img = getImageData img"
  by (simp add: putImageData_def getImageData_def)

lemma wfImage_getImageData: "wfImage (getImageData bmp)"
  by (simp add: wfImage_def getImageData_def length_data_drawImage) (simp add: drawImage_def)

lemma size_getImageData [simp]:
  "width (getImageData bmp) = width bmp" "height (getImageData bmp) = height bmp"
  by (simp_all add: getImageData_def drawImage_def)

lemma srcByte_getImageData:
  assumes "c < 4"
  shows "srcByte (getImageData bmp) x y c = canvasByte bmp x y c"
proof (cases "x < width bmp \<and> y < height bmp")
  case True
  then show ?thesis
    using elemAt_getImageData [of x bmp y c] assms by (simp add: srcByte_def)
next
  case False
  then have "srcByte bmp x y k = 0" for k by (auto simp: srcByte_def)
  with False show ?thesis by (auto simp: srcByte_def canvasByte_def stored_transparent)
qed

text \<open>What has been read from a canvas goes through the store unchanged.\<close>

lemma canvasByte_getImageData:
  assumes "c < 4"
  shows "canvasByte (getImageData bmp) x y c = canvasByte bmp x y c"
proof (cases "c < 3")
  case True
  then have "canvasByte (getImageData bmp) x y c
               = stored (canvasByte bmp x y 3) (canvasByte bmp x y c)"
    by (simp add: canvasByte_def [of "getImageData bmp"] srcByte_getImageData)
  also have "\<dots> = stored (srcByte bmp x y 3) (stored (srcByte bmp x y 3) (srcByte bmp x y c))"
    using True by (simp add: canvasByte_def)
  also have "\<dots> = canvasByte bmp x y c"
    using True by (simp add: stored_idem canvasByte_def)
  finally show ?thesis .
next
  case False
  with assms show ?thesis by (simp add: canvasByte_def srcByte_getImageData)
qed

text \<open>The packed buffer depends on the centre samples only.\<close>

lemma inlineCenterInfo_cong:
  assumes "\<And>xx yy k. xx < W div 3 \<Longrightarrow> yy < H div 3 \<Longrightarrow> k < 4 \<Longrightarrow>
             elemAt d (((yy * 3 + 1) * W + (xx * 3 + 1)) * 4 + k)
               = elemAt d' (((yy * 3 + 1) * W + (xx * 3 + 1)) * 4 + k)"
  shows "inlineCenterInfo W H d = inlineCenterInfo W H d'"
proof -
  have px: "inlineCenterPixel W (W div 3) d yy xx = inlineCenterPixel W (W div 3) d' yy xx"
    if "xx < W div 3" and "yy < H div 3" for xx yy
  proof -
    have e: "elemAt d (((yy * 3 + 1) * W + (xx * 3 + 1)) * 4 + 0)
               = elemAt d' (((yy * 3 + 1) * W + (xx * 3 + 1)) * 4 + 0)"
      "elemAt d (((yy * 3 + 1) * W + (xx * 3 + 1)) * 4 + 1)
               = elemAt d' (((yy * 3 + 1) * W + (xx * 3 + 1)) * 4 + 1)"
      "elemAt d (((yy * 3 + 1) * W + (xx * 3 + 1)) * 4 + 2)
               = elemAt d' (((yy * 3 + 1) * W + (xx * 3 + 1)) * 4 + 2)"
      "elemAt d (((yy * 3 + 1) * W + (xx * 3 + 1)) * 4 + 3)
               = elemAt d' (((yy * 3 + 1) * W + (xx * 3 + 1)) * 4 + 3)"
      by (rule assms [OF that]; simp)+
    show ?thesis
      unfolding inlineCenterPixel_def Let_def shreadSize_def by (simp only: e)
  qed
  have row: "fold (\<lambda>xx. inlineCenterPixel W (W div 3) d yy xx) [0..<W div 3] cd
               = fold (\<lambda>xx. inlineCenterPixel W (W div 3) d' yy xx) [0..<W div 3] cd"
    if "yy < H div 3" for yy cd
    by (rule fold_cong) (simp_all add: px that)
  have "fold (\<lambda>yy. fold (\<lambda>xx. inlineCenterPixel W (W div 3) d yy xx) [0..<W div 3])
             [0..<H div 3] cd
          = fold (\<lambda>yy. fold (\<lambda>xx. inlineCenterPixel W (W div 3) d' yy xx) [0..<W div 3])
             [0..<H div 3] cd" for cd
    by (rule fold_cong) (auto simp: row)
  then show ?thesis by (simp add: inlineCenterInfo_def Let_def shreadSize_def)
qed

lemma fst_fold:
  assumes "\<And>x s. fst (F x s) = f x (fst s)"
  shows "fst (fold F xs s) = fold f xs (fst s)"
  by (induction xs arbitrary: s) (simp_all add: assms)

lemma fst_indexCenterPixel:
  "fst (indexCenterPixel 3 bmpWidth widthPx d y x st) = inlineCenterPixel bmpWidth widthPx d y x (fst st)"
  by (simp add: indexCenterPixel_def inlineCenterPixel_def Let_def shreadSize_def)

lemma centerPixelIndex_indexChunk:
  "centerPixelIndex (indexChunk 3 key bmp t)
     = AList.update key (rebuiltInfo bmp) (centerPixelIndex t)"
proof -
  have "fst (fold (\<lambda>y. fold (\<lambda>x. indexCenterPixel 3 (width bmp) (width bmp div 3)
                                         (data (getImageData bmp)) y x)
                                [0..<width bmp div 3])
                     [0..<height bmp div 3]
                     (replicate (width bmp div 3 * (height bmp div 3)) 0, colorsUsed t))
        = fold (\<lambda>y. fold (\<lambda>x. inlineCenterPixel (width bmp) (width bmp div 3)
                                         (data (getImageData bmp)) y x)
                                [0..<width bmp div 3])
                     [0..<height bmp div 3]
                     (replicate (width bmp div 3 * (height bmp div 3)) 0)"
    by (simp add: fst_fold fst_indexCenterPixel)
  then show ?thesis
    by (simp add: indexChunk_def Let_def rebuiltInfo_def inlineCenterInfo_def shreadSize_def)
qed

lemma update_fresh:
  "k \<notin> fst ` set al \<Longrightarrow> AList.update k v al = al @ [(k, v)]"
  by (induction al) auto

lemma map_update:
  "map (\<lambda>kb. (fst kb, f (snd kb))) (AList.update k v al)
     = AList.update k (f v) (map (\<lambda>kb. (fst kb, f (snd kb))) al)"
  by (induction al) auto

lemma centerPixelIndex_indexChunks:
  assumes "distinct (map fst ch)" and "set xs \<subseteq> set ch" and "distinct (map fst xs)"
    and "fst ` set (centerPixelIndex t) \<inter> fst ` set xs = {}"
  shows "centerPixelIndex
           (fold (\<lambda>key t. case map_of ch key of None \<Rightarrow> t
                           | Some bmp \<Rightarrow> indexChunk 3 key bmp t) (map fst xs) t)
         = centerPixelIndex t @ map (\<lambda>kb. (fst kb, rebuiltInfo (snd kb))) xs"
  using assms(2-4)
proof (induction xs arbitrary: t)
  case Nil
  show ?case by simp
next
  case (Cons x xs)
  obtain k v where x: "x = (k, v)" by (cases x)
  with Cons.prems(1) have "(k, v) \<in> set ch" by simp
  with assms(1) have m: "map_of ch k = Some v" by simp
  from Cons.prems(3) x have fresh: "k \<notin> fst ` set (centerPixelIndex t)" by auto
  let ?t = "indexChunk 3 k v t"
  have c: "centerPixelIndex ?t = centerPixelIndex t @ [(k, rebuiltInfo v)]"
    by (simp add: centerPixelIndex_indexChunk update_fresh [OF fresh])
  have dj: "fst ` set (centerPixelIndex ?t) \<inter> fst ` set xs = {}"
    using Cons.prems(2,3) x by (auto simp: c)
  from Cons.prems have sub: "set xs \<subseteq> set ch" and dist: "distinct (map fst xs)" by simp_all
  have "centerPixelIndex
           (fold (\<lambda>key t. case map_of ch key of None \<Rightarrow> t
                           | Some bmp \<Rightarrow> indexChunk 3 key bmp t) (map fst xs) ?t)
         = centerPixelIndex ?t @ map (\<lambda>kb. (fst kb, rebuiltInfo (snd kb))) xs"
    by (rule Cons.IH [OF sub dist dj])
  then show ?case by (simp add: x m c)
qed

lemma centerPixelIndex_buildCenterPixelIndex:
  assumes "chunked t = Some ch" and "distinct (map fst ch)"
  shows "centerPixelIndex (buildCenterPixelIndex 3 t)
           = map (\<lambda>kb. (fst kb, rebuiltInfo (snd kb))) ch"
  using centerPixelIndex_indexChunks [OF assms(2), of ch "t\<lparr>centerPixelIndex := [], colorsUsed := []\<rparr>"]
    assms
  by (simp add: buildCenterPixelIndex_def Let_def)

lemma length_shredPixel: "length (fst (shredPixel cw y x st)) = length (fst st)"
  by (simp add: shredPixel_def Let_def)

lemma length_shred: "length (fst (shred cw ch st)) = length (fst st)"
  unfolding shred_def
  by (rule fold_invariant [where I = "\<lambda>s. length (fst s) = length (fst st)"],
      rule fold_invariant [where I = "\<lambda>s. length (fst s) = length (fst st)"])
     (simp_all add: length_shredPixel)

lemma shredPixel_centre_bytes:
  assumes "x < W" and "cx < W" and "cx mod 3 = 1" and "cy mod 3 = 1" and "k < 4"
  shows "elemAt (fst (shredPixel W y x s)) ((cy * W + cx) * 4 + k)
           = elemAt (fst s) ((cy * W + cx) * 4 + k)"
proof (cases "x mod 3 = 1 \<and> y mod 3 = 1")
  case True
  then show ?thesis by (simp add: shredPixel_def Let_def shreadSize_def)
next
  case False
  with assms(3,4) have "\<not> (cx = x \<and> cy = y)" by auto
  with pixel_index_inject [of cy W cx y x] assms(1,2)
  have "cy * W + cx \<noteq> y * W + x" by auto
  with assms(5) have ne: "(cy * W + cx) * 4 + k \<noteq> (y * W + x) * 4 + 3" by arith
  from False have sp: "shredPixel W y x s = ((fst s)[(y * W + x) * 4 + 3 := 0], snd s)"
    by (auto simp: shredPixel_def Let_def shreadSize_def)
  show ?thesis unfolding sp fst_conv by (rule elemAt_update_neq [OF ne])
qed

lemma shred_centre_bytes:
  assumes "cx < W" and "cx mod 3 = 1" and "cy mod 3 = 1" and "k < 4"
  shows "elemAt (fst (shred W H s)) ((cy * W + cx) * 4 + k)
           = elemAt (fst s) ((cy * W + cx) * 4 + k)"
proof -
  let ?I = "\<lambda>s' :: u8 list \<times> (string \<times> nat) list.
              elemAt (fst s') ((cy * W + cx) * 4 + k) = elemAt (fst s) ((cy * W + cx) * 4 + k)"
  have step: "?I (shredPixel W y x s')" if "x \<in> set [0..<W]" and "?I s'" for x y s'
  proof -
    from that(1) have "x < W" by simp
    from shredPixel_centre_bytes [OF this assms] that(2) show ?thesis by simp
  qed
  have row: "?I (fold (\<lambda>x. shredPixel W y x) [0..<W] s')" if "?I s'" for y s'
    using step that by (rule fold_invariant [where I = ?I])
  show ?thesis
    unfolding shred_def
  proof (rule fold_invariant [where I = ?I])
    show "?I s" by simp
  next
    fix y s' assume "?I s'"
    then show "?I (fold (shredPixel W y) [0..<W] s')" by (rule row)
  qed
qed

text \<open>
  The entry rebuilt from the stored bitmap of a chunk is the entry built inline from
  the shredded image data: a centre sample was read from the canvas before it was
  put back, so the store returns it as it is.
\<close>

lemma rebuiltInfo_stored_chunk:
  "rebuiltInfo (putImageData
            \<lparr> width = dx * shreadSize, height = dy * shreadSize,
              data = fst (shred (dx * shreadSize) (dy * shreadSize)
                            (data (drawImage bitmap sx sy dx dy (dx * shreadSize)
                                     (dy * shreadSize)), cu)) \<rparr>)
         = inlineCenterInfo (dx * shreadSize) (dy * shreadSize)
             (fst (shred (dx * shreadSize) (dy * shreadSize)
                     (data (drawImage bitmap sx sy dx dy (dx * shreadSize) (dy * shreadSize)),
                      cu)))"
proof -
  let ?W = "dx * 3" and ?H = "dy * 3"
  let ?img = "drawImage bitmap sx sy dx dy ?W ?H"
  let ?d = "fst (shred ?W ?H (data ?img, cu))"
  let ?S = "\<lparr> width = ?W, height = ?H, data = ?d \<rparr>"
  have "inlineCenterInfo ?W ?H (data (getImageData (getImageData ?S)))
          = inlineCenterInfo ?W ?H ?d"
  proof (rule inlineCenterInfo_cong)
    fix xx yy k :: nat
    assume xx: "xx < ?W div 3" and yy: "yy < ?H div 3" and k: "k < 4"
    define cx where "cx = xx * 3 + 1"
    define cy where "cy = yy * 3 + 1"
    define i where "i = (cy * ?W + cx) * 4"
    from xx yy have cx: "cx < ?W" and cy: "cy < ?H" by (simp_all add: cx_def cy_def)
    have m: "cx mod 3 = 1" "cy mod 3 = 1" unfolding cx_def cy_def by presburger+
    have b: "i + j < 4 * (?W * ?H)" if "j < 4" for j
    proof -
      have "cy * ?W + cx < Suc cy * ?W" using cx by simp
      also have "\<dots> \<le> ?H * ?W" using cy by (intro mult_le_mono1) simp
      finally have "cy * ?W + cx < ?W * ?H" by (simp add: mult.commute)
      with that show ?thesis by (simp add: i_def)
    qed
    have len: "length ?d = 4 * (?W * ?H)"
      by (simp add: length_shred length_data_drawImage)
    have sh: "elemAt ?d (i + j) = elemAt (data ?img) (i + j)" if "j < 4" for j
      using shred_centre_bytes [OF cx m that, of ?H "(data ?img, cu)"] by (simp add: i_def)
    define v where "v = (\<lambda>j. canvasByte bitmap (sx + cx * dx div ?W) (sy + cy * dy div ?H) j)"
    have rd: "elemAt (data ?img) (i + j) = Some (v j)" if "j < 4" for j
      using elemAt_drawImage [OF cx cy that, of bitmap sx sy dx dy] by (simp add: i_def v_def)
    have src: "srcByte ?S cx cy j = v j" if "j < 4" for j
      using cx cy sh [OF that] rd [OF that] by (simp add: srcByte_def i_def)
    have v: "stored (v 3) (v j) = v j" if "j < 3" for j
      using that by (simp add: v_def canvasByte_def stored_idem)
    have fixed: "canvasByte ?S cx cy j = v j" if "j < 4" for j
    proof (cases "j < 3")
      case True
      have "canvasByte ?S cx cy j = stored (srcByte ?S cx cy 3) (srcByte ?S cx cy j)"
        using True by (simp add: canvasByte_def)
      also have "\<dots> = stored (v 3) (v j)" using that by (simp add: src)
      also have "\<dots> = v j" using True by (rule v)
      finally show ?thesis .
    next
      case False
      with that src [OF that] show ?thesis by (simp add: canvasByte_def)
    qed
    have "elemAt (data (getImageData (getImageData ?S))) ((cy * ?W + cx) * 4 + k)
            = Some (canvasByte (getImageData ?S) cx cy k)"
      using elemAt_getImageData [of cx "getImageData ?S" cy k] cx cy k by simp
    also have "\<dots> = Some (v k)"
      using k by (simp add: canvasByte_getImageData fixed)
    also have "\<dots> = elemAt ?d (i + k)"
      using sh [OF k] rd [OF k] by simp
    finally show "elemAt (data (getImageData (getImageData ?S)))
                    (((yy * 3 + 1) * ?W + (xx * 3 + 1)) * 4 + k)
                    = elemAt ?d (((yy * 3 + 1) * ?W + (xx * 3 + 1)) * 4 + k)"
      by (simp only: i_def cx_def cy_def)
  qed
  then show ?thesis
    by (simp add: rebuiltInfo_def putImageData_eq shreadSize_def)
qed

lemma indexMatches_makeChunk:
  assumes "indexMatches st"
  shows "indexMatches (makeChunk co bitmap px py dx dy st)"
  using assms rebuiltInfo_stored_chunk [of dx dy bitmap "px - fst (snd (snd co))"
      "py - snd (snd (snd co))" "colorsUsed (fst st)"]
  by (simp add: indexMatches_def makeChunk_def Let_def map_update distinct_update)

text \<open>
  C6. Chunking an image on a fresh template returns, for every positive tile size,
  with one entry of the packed index for each stored bitmap. On any template that
  holds the stored bitmaps as \<open>chunked\<close> (whatever its packed index was),
  \<open>buildCenterPixelIndex(3)\<close> ends with the packed index that chunking built
  inline: the same keys in the same order, each with the same width, height and
  data.
\<close>

theorem rebuilt_index_equals_inline:
  assumes "0 < T"
  shows "\<exists>t tiles.
      createTemplateTiles (newTemplate sid co T) bitmap = Inr (t, tiles) \<and>
      map fst (centerPixelIndex t) = map fst tiles \<and>
      (\<forall>this. chunked this = Some tiles \<longrightarrow>
         centerPixelIndex (buildCenterPixelIndex 3 this) = centerPixelIndex t)"
proof -
  define st where "st = chunkLoops co bitmap
                 (segments T (snd (snd (snd co))) (height bitmap) (snd (snd (snd co))))
                 (segments T (fst (snd (snd co))) (width bitmap) (fst (snd (snd co))))
                 ((newTemplate sid co T)\<lparr>pixelCount := width bitmap * height bitmap\<rparr>, [])"
  define t where "t = (fst st)\<lparr>activeColors := Some (set (map fst (colorsUsed (fst st))))\<rparr>"
  have res: "createTemplateTiles (newTemplate sid co T) bitmap = Inr (t, snd st)"
    using createTemplateTiles_fresh [OF assms, of sid co bitmap]
    by (simp add: Let_def t_def st_def)
  have "indexMatches st"
    unfolding st_def
    by (rule chunkLoops_invariant [where I = indexMatches])
       (simp_all add: indexMatches_makeChunk, simp add: indexMatches_def newTemplate_def)
  then have m: "centerPixelIndex t = map (\<lambda>kb. (fst kb, rebuiltInfo (snd kb))) (snd st)"
    and d: "distinct (map fst (snd st))"
    by (simp_all add: indexMatches_def t_def)
  have "centerPixelIndex (buildCenterPixelIndex 3 this)
          = map (\<lambda>kb. (fst kb, rebuiltInfo (snd kb))) (snd st)"
    if "chunked this = Some (snd st)" for this
    using that d by (rule centerPixelIndex_buildCenterPixelIndex)
  with m res show ?thesis by (simp add: comp_def)
qed

lemma createTemplateTiles_tintedPixel:
  "createTemplateTiles (newTemplate 0 (0, 0, 0, 0) 1000) tintedPixel
     = Inr (\<lparr> sortID = 0, coords = (0, 0, 0, 0), chunked = None, tileSize = 1000,
              pixelCount = 1, placedPixelKeys = {}, wrongPixelKeys = {},
              colorsUsed = [(''199,100,50'', 1)], activeColors = Some {''199,100,50''},
              centerPixelIndex = [((0, 0, 0, 0),
                 \<lparr> chunkWidthPx = 1, chunkHeightPx = 1, centerData = [13067314] \<rparr>)],
              tileIndex = [((0, 0), [(0, 0, 0, 0)])] \<rparr>,
            [((0, 0, 0, 0), tintedChunk)])"
  by code_simp

theorem rebuilt_index_equals_inline_witness:
  "(0::nat) < 1000 \<and>
   (\<exists>t tiles.
      createTemplateTiles (newTemplate 0 (0, 0, 0, 0) 1000) tintedPixel = Inr (t, tiles) \<and>
      tiles = [((0, 0, 0, 0), tintedChunk)] \<and>
      chunked ((newTemplate 1 (0, 0, 0, 0) 1000)\<lparr>chunked := Some tiles\<rparr>) = Some tiles \<and>
      centerPixelIndex (buildCenterPixelIndex 3
          ((newTemplate 1 (0, 0, 0, 0) 1000)\<lparr>chunked := Some tiles\<rparr>))
        = centerPixelIndex t \<and>
      centerPixelIndex t
        = [((0, 0, 0, 0), \<lparr> chunkWidthPx = 1, chunkHeightPx = 1, centerData = [13067314] \<rparr>)])"
proof -
  from rebuilt_index_equals_inline [of 1000 0 "(0, 0, 0, 0)" tintedPixel]
  obtain t tiles where r: "createTemplateTiles (newTemplate 0 (0, 0, 0, 0) 1000) tintedPixel
                             = Inr (t, tiles)"
    and a: "\<forall>this. chunked this = Some tiles \<longrightarrow>
              centerPixelIndex (buildCenterPixelIndex 3 this) = centerPixelIndex t"
    by auto
  from createTemplateTiles_tintedPixel r
  have c: "tiles = [((0, 0, 0, 0), tintedChunk)]"
    "centerPixelIndex t
       = [((0, 0, 0, 0), \<lparr> chunkWidthPx = 1, chunkHeightPx = 1, centerData = [13067314] \<rparr>)]"
    by auto
  have "chunked ((newTemplate 1 (0, 0, 0, 0) 1000)\<lparr>chunked := Some tiles\<rparr>) = Some tiles"
    by simp
  with a have "centerPixelIndex (buildCenterPixelIndex 3
          ((newTemplate 1 (0, 0, 0, 0) 1000)\<lparr>chunked := Some tiles\<rparr>))
        = centerPixelIndex t" by blast
  with r c show ?thesis by simp
qed

section \<open>Active colours after chunking and indexing\<close>

lemma fold_reaches:
  assumes "x0 \<in> set xs"
    and "\<And>x s. x \<in> set xs \<Longrightarrow> I s \<Longrightarrow> I (f x s)"
    and "\<And>s. I s \<Longrightarrow> D (f x0 s)"
    and "\<And>x s. x \<in> set xs \<Longrightarrow> D s \<Longrightarrow> D (f x s)"
    and "I s"
  shows "D (fold f xs s)"
  using assms
proof (induction xs arbitrary: s)
  case Nil
  then show ?case by simp
next
  case (Cons x xs)
  show ?case
  proof (cases "x = x0")
    case True
    with Cons.prems(3,5) have "D (f x s)" by simp
    then have "D (fold f xs (f x s))"
      by (rule fold_invariant [where I = D, rotated]) (simp add: Cons.prems(4))
    then show ?thesis by simp
  next
    case False
    with Cons.prems(1) have "x0 \<in> set xs" by simp
    moreover have "I (f x s)" using Cons.prems(2,5) by simp
    ultimately have "D (fold f xs (f x s))"
      using Cons.prems(2,3,4) by (intro Cons.IH) simp_all
    then show ?thesis by simp
  qed
qed

lemma bumpColor_nonempty [simp]: "bumpColor key cu \<noteq> []"
  by (cases cu) (simp_all add: bumpColor_def)

lemma segments_cover:
  assumes "c \<le> p0" and "p0 \<le> q" and "q < len + c" and "0 < T"
  shows "\<exists>p d. (p, d) \<in> set (segments T c len p0) \<and> p \<le> q \<and> q < p + d"
  using assms
proof (induction T c len p0 rule: segments.induct)
  case (1 T c len p0)
  let ?d = "min (T - p0 mod T) (len - (p0 - c))"
  from "1.prems" have cond: "p0 < len + c \<and> c \<le> p0 \<and> 0 < T" by simp
  then have s: "segments T c len p0 = (p0, ?d) # segments T c len (p0 + ?d)"
    by (subst segments.simps) (rule if_P)
  show ?case
  proof (cases "q < p0 + ?d")
    case True
    with "1.prems"(2) s show ?thesis by auto
  next
    case False
    then have "p0 + ?d \<le> q" by simp
    moreover from "1.prems"(1) have "c \<le> p0 + ?d" by simp
    ultimately obtain p d where "(p, d) \<in> set (segments T c len (p0 + ?d))" "p \<le> q" "q < p + d"
      using "1.IH" [OF cond] "1.prems"(3,4) by blast
    with s show ?thesis by auto
  qed
qed


lemma shredPixel_keeps_colors:
  "snd s \<noteq> [] \<Longrightarrow> snd (shredPixel W y x s) \<noteq> []"
  by (simp add: shredPixel_def Let_def)

lemma shredPixel_keeps_center:
  assumes "x < W" and "cx < W" and "cx mod 3 = 1" and "cy mod 3 = 1"
    and "snd s \<noteq> [] \<or> elemAt (fst s) ((cy * W + cx) * 4 + 3) \<noteq> Some 0"
  shows "snd (shredPixel W y x s) \<noteq> []
         \<or> elemAt (fst (shredPixel W y x s)) ((cy * W + cx) * 4 + 3) \<noteq> Some 0"
proof (cases "x mod 3 = 1 \<and> y mod 3 = 1")
  case True
  with assms(5) show ?thesis by (auto simp: shredPixel_def Let_def shreadSize_def)
next
  case False
  with assms(3,4) have "\<not> (x = cx \<and> y = cy)" by auto
  with pixel_index_inject [of cy W cx y x] assms(1,2)
  have "cy * W + cx \<noteq> y * W + x" by auto
  then have ne: "(cy * W + cx) * 4 + 3 \<noteq> (y * W + x) * 4 + 3" by simp
  from False have sp: "shredPixel W y x s = ((fst s)[(y * W + x) * 4 + 3 := 0], snd s)"
    by (auto simp: shredPixel_def Let_def shreadSize_def)
  have e: "elemAt ((fst s)[(y * W + x) * 4 + 3 := 0]) ((cy * W + cx) * 4 + 3)
             = elemAt (fst s) ((cy * W + cx) * 4 + 3)"
    by (rule elemAt_update_neq [OF ne])
  show ?thesis
    unfolding sp fst_conv snd_conv e by (rule assms(5))
qed

lemma shredPixel_counts_center:
  assumes "cx mod 3 = 1" and "cy mod 3 = 1"
    and "snd s \<noteq> [] \<or> elemAt (fst s) ((cy * W + cx) * 4 + 3) \<noteq> Some 0"
  shows "snd (shredPixel W cy cx s) \<noteq> []"
  using assms by (auto simp: shredPixel_def Let_def shreadSize_def)

lemma shred_counts_center:
  assumes "cx < W" and "cy < H" and "cx mod 3 = 1" and "cy mod 3 = 1"
    and "snd s \<noteq> [] \<or> elemAt (fst s) ((cy * W + cx) * 4 + 3) \<noteq> Some 0"
  shows "snd (shred W H s) \<noteq> []"
proof -
  let ?I = "\<lambda>s :: u8 list \<times> (string \<times> nat) list.
              snd s \<noteq> [] \<or> elemAt (fst s) ((cy * W + cx) * 4 + 3) \<noteq> Some 0"
  let ?D = "\<lambda>s :: u8 list \<times> (string \<times> nat) list. snd s \<noteq> []"
  have stepI: "?I (shredPixel W y x s)" if "x \<in> set [0..<W]" and "?I s" for x y s
  proof -
    from that(1) have "x < W" by simp
    from shredPixel_keeps_center [OF this assms(1,3,4) that(2)] show ?thesis .
  qed
  have rowI: "?I (fold (\<lambda>x. shredPixel W y x) [0..<W] s)" if "?I s" for y s
    using stepI that by (rule fold_invariant [where I = ?I])
  have rowD: "?D (fold (\<lambda>x. shredPixel W y x) [0..<W] s)" if "?D s" for y s
    using shredPixel_keeps_colors that by (rule fold_invariant [where I = ?D])
  have row: "?D (fold (\<lambda>x. shredPixel W cy x) [0..<W] s)" if "?I s" for s
  proof (rule fold_reaches [where I = ?I and D = ?D and ?x0.0 = cx])
    show "cx \<in> set [0..<W]" using assms(1) by simp
    show "?I s" by (rule that)
  next
    fix x s assume "x \<in> set [0..<W]" and "?I s"
    then show "?I (shredPixel W cy x s)" by (rule stepI)
  next
    fix s assume "?I s"
    with assms(3,4) show "?D (shredPixel W cy cx s)"
      by (rule shredPixel_counts_center)
  next
    fix x s assume "?D s"
    then show "?D (shredPixel W cy x s)" by (rule shredPixel_keeps_colors)
  qed
  show ?thesis
    unfolding shred_def
  proof (rule fold_reaches [where I = ?I and D = ?D and ?x0.0 = cy])
    show "cy \<in> set [0..<H]" using assms(2) by simp
    show "?I s" by (rule assms(5))
  next
    fix y s assume "?I s"
    then show "?I (fold (shredPixel W y) [0..<W] s)" by (rule rowI)
  next
    fix s assume "?I s"
    then show "?D (fold (shredPixel W cy) [0..<W] s)" by (rule row)
  next
    fix y s assume "?D s"
    then show "?D (fold (shredPixel W y) [0..<W] s)" by (rule rowD)
  qed
qed

lemma shred_keeps_colors:
  assumes "snd s \<noteq> []"
  shows "snd (shred W H s) \<noteq> []"
proof -
  let ?D = "\<lambda>s :: u8 list \<times> (string \<times> nat) list. snd s \<noteq> []"
  have rowD: "?D (fold (\<lambda>x. shredPixel W y x) [0..<W] s)" if "?D s" for y s
    using shredPixel_keeps_colors that by (rule fold_invariant [where I = ?D])
  show ?thesis
    unfolding shred_def using rowD assms by (rule fold_invariant [where I = ?D])
qed

lemma colorsUsed_makeChunk:
  "colorsUsed (fst (makeChunk co bitmap px py dx dy st))
     = snd (shred (dx * shreadSize) (dy * shreadSize)
              (data (drawImage bitmap (px - fst (snd (snd co))) (py - snd (snd (snd co)))
                       dx dy (dx * shreadSize) (dy * shreadSize)),
               colorsUsed (fst st)))"
  by (simp add: makeChunk_def Let_def)

lemma makeChunk_keeps_colors:
  "colorsUsed (fst st) \<noteq> [] \<Longrightarrow> colorsUsed (fst (makeChunk co bitmap px py dx dy st)) \<noteq> []"
  by (simp add: colorsUsed_makeChunk shred_keeps_colors)

lemma makeChunk_counts_pixel:
  assumes "lx < dx" and "ly < dy"
    and "srcByte bitmap (px - fst (snd (snd co)) + lx) (py - snd (snd (snd co)) + ly) 3 \<noteq> 0"
  shows "colorsUsed (fst (makeChunk co bitmap px py dx dy st)) \<noteq> []"
proof -
  let ?W = "dx * 3" and ?H = "dy * 3"
  let ?cx = "lx * 3 + 1" and ?cy = "ly * 3 + 1"
  let ?img = "drawImage bitmap (px - fst (snd (snd co))) (py - snd (snd (snd co))) dx dy ?W ?H"
  have cx: "?cx < ?W" and cy: "?cy < ?H" using assms(1,2) by arith+
  have scale: "(l * 3 + 1) * d div (d * 3) = l" if "l < d" for l d :: nat
  proof -
    have "(l * 3 + 1) * d div (d * 3) = (d * (l * 3 + 1)) div (d * 3)"
      by (simp only: mult.commute)
    also have "\<dots> = (l * 3 + 1) div 3"
      using that by (intro div_mult_mult1) simp
    also have "\<dots> = l" by simp
    finally show ?thesis .
  qed
  have sx: "?cx * dx div ?W = lx" by (rule scale [OF assms(1)])
  have sy: "?cy * dy div ?H = ly" by (rule scale [OF assms(2)])
  have "elemAt (data ?img) ((?cy * ?W + ?cx) * 4 + 3)
          = Some (srcByte bitmap (px - fst (snd (snd co)) + ?cx * dx div ?W)
                                 (py - snd (snd (snd co)) + ?cy * dy div ?H) 3)"
    using cx cy elemAt_drawImage [of ?cx ?W ?cy ?H 3 bitmap "px - fst (snd (snd co))"
                                    "py - snd (snd (snd co))" dx dy]
    by (simp add: canvasByte_alpha)
  with assms(3) have "elemAt (data ?img) ((?cy * ?W + ?cx) * 4 + 3) \<noteq> Some 0"
    by (simp only: sx sy) simp
  moreover have m: "?cx mod 3 = 1" "?cy mod 3 = 1" by presburger+
  ultimately have "snd (shred ?W ?H (data ?img, colorsUsed (fst st))) \<noteq> []"
    by (intro shred_counts_center [OF cx cy m] disjI2) simp
  then show ?thesis by (simp add: colorsUsed_makeChunk shreadSize_def)
qed

lemma chunkLoops_counts_pixel:
  assumes "(px, dx) \<in> set segsX" and "(py, dy) \<in> set segsY"
    and "lx < dx" and "ly < dy"
    and "srcByte bitmap (px - fst (snd (snd co)) + lx) (py - snd (snd (snd co)) + ly) 3 \<noteq> 0"
  shows "colorsUsed (fst (chunkLoops co bitmap segsY segsX st)) \<noteq> []"
proof -
  let ?D = "\<lambda>s :: Template \<times> (chunkKey \<times> ImageData) list. colorsUsed (fst s) \<noteq> []"
  let ?row = "\<lambda>segY. fold (\<lambda>segX. makeChunk co bitmap (fst segX) (fst segY) (snd segX) (snd segY)) segsX"
  have rowD: "?D (?row segY s)" if "?D s" for segY s
    using makeChunk_keeps_colors that by (rule fold_invariant [where I = ?D])
  have row: "?D (?row (py, dy) s)" for s
  proof (rule fold_reaches [where I = "\<lambda>s. True" and D = ?D and ?x0.0 = "(px, dx)"])
    show "(px, dx) \<in> set segsX" by (rule assms(1))
  next
    fix s
    show "?D (makeChunk co bitmap (fst (px, dx)) (fst (py, dy)) (snd (px, dx)) (snd (py, dy)) s)"
      using makeChunk_counts_pixel [OF assms(3,4,5)] by simp
  next
    fix x s assume "?D s"
    then show "?D (makeChunk co bitmap (fst x) (fst (py, dy)) (snd x) (snd (py, dy)) s)"
      by (rule makeChunk_keeps_colors)
  qed simp_all
  show ?thesis
    unfolding chunkLoops_def
  proof (rule fold_reaches [where I = "\<lambda>s. True" and D = ?D and ?x0.0 = "(py, dy)"])
    show "(py, dy) \<in> set segsY" by (rule assms(2))
  next
    fix s show "?D (?row (py, dy) s)" by (rule row)
  next
    fix y s assume "?D s"
    then show "?D (?row y s)" by (rule rowD)
  qed simp_all
qed

lemma fold_reaches_simple:
  assumes "x0 \<in> set xs"
    and "\<And>s. D (f x0 s)"
    and "\<And>x s. D s \<Longrightarrow> D (f x s)"
  shows "D (fold f xs s)"
  by (rule fold_reaches [where I = "\<lambda>s. True" and D = D and ?x0.0 = x0])
     (simp_all add: assms)

lemma indexCenterPixel_keeps_colors:
  "snd s \<noteq> [] \<Longrightarrow> snd (indexCenterPixel dm bw cw d y x s) \<noteq> []"
  by (simp add: indexCenterPixel_def Let_def)

lemma indexCenterPixel_counts:
  assumes "elemAt d (((y * dm + 1) * bw + (x * dm + 1)) * 4 + 3) \<noteq> Some 0"
  shows "snd (indexCenterPixel dm bw cw d y x s) \<noteq> []"
  using assms by (simp add: indexCenterPixel_def Let_def)

lemma colorsUsed_indexChunk:
  "colorsUsed (indexChunk dm key bmp t)
     = snd (fold (\<lambda>y. fold (\<lambda>x. indexCenterPixel dm (width bmp) (width bmp div dm)
                                         (data (getImageData bmp)) y x)
                                [0..<width bmp div dm])
                 [0..<height bmp div dm]
                 (replicate (width bmp div dm * (height bmp div dm)) 0, colorsUsed t))"
  by (simp add: indexChunk_def Let_def)

lemma indexChunk_keeps_colors:
  assumes "colorsUsed t \<noteq> []"
  shows "colorsUsed (indexChunk dm key bmp t) \<noteq> []"
proof -
  let ?D = "\<lambda>s :: u32 list \<times> (string \<times> nat) list. snd s \<noteq> []"
  have row: "?D (fold (\<lambda>x. indexCenterPixel dm (width bmp) (width bmp div dm)
                              (data (getImageData bmp)) y x) xs s)" if "?D s" for y xs s
    using indexCenterPixel_keeps_colors that by (rule fold_invariant [where I = ?D])
  have init: "?D (replicate (width bmp div dm * (height bmp div dm)) 0, colorsUsed t)"
    using assms by simp
  have "?D (fold (\<lambda>y. fold (\<lambda>x. indexCenterPixel dm (width bmp) (width bmp div dm)
                                         (data (getImageData bmp)) y x)
                                [0..<width bmp div dm])
                 [0..<height bmp div dm]
                 (replicate (width bmp div dm * (height bmp div dm)) 0, colorsUsed t))"
    using row init by (rule fold_invariant [where I = ?D])
  then show ?thesis unfolding colorsUsed_indexChunk .
qed

lemma indexChunk_counts:
  assumes "x < width bmp div 3" and "y < height bmp div 3"
    and "srcByte bmp (x * 3 + 1) (y * 3 + 1) 3 \<noteq> 0"
  shows "colorsUsed (indexChunk 3 key bmp t) \<noteq> []"
proof -
  let ?w = "width bmp" and ?h = "height bmp"
  let ?X = "x * 3 + 1" and ?Y = "y * 3 + 1"
  let ?d = "data (getImageData bmp)"
  let ?D = "\<lambda>s :: u32 list \<times> (string \<times> nat) list. snd s \<noteq> []"
  from assms(1) have X: "?X < ?w" by arith
  from assms(2) have Y: "?Y < ?h" by arith
  have "elemAt ?d ((?Y * ?w + ?X) * 4 + 3)
          = Some (srcByte bmp (0 + ?X * ?w div ?w) (0 + ?Y * ?h div ?h) 3)"
    unfolding getImageData_def
    using X Y elemAt_drawImage [of ?X ?w ?Y ?h 3 bmp 0 0 ?w ?h] by (simp add: canvasByte_alpha)
  also have "?X * ?w div ?w = ?X" using X by simp
  also have "?Y * ?h div ?h = ?Y" using Y by simp
  finally have a: "elemAt ?d ((?Y * ?w + ?X) * 4 + 3) \<noteq> Some 0"
    using assms(3) by simp
  have rowD: "?D (fold (\<lambda>x. indexCenterPixel 3 ?w (?w div 3) ?d y' x) xs s)"
    if "?D s" for y' xs s
    using indexCenterPixel_keeps_colors that by (rule fold_invariant [where I = ?D])
  have row: "?D (fold (\<lambda>x. indexCenterPixel 3 ?w (?w div 3) ?d y x) [0..<?w div 3] s)" for s
  proof (rule fold_reaches_simple [where D = ?D and ?x0.0 = x])
    show "x \<in> set [0..<?w div 3]" using assms(1) by simp
  next
    fix s show "?D (indexCenterPixel 3 ?w (?w div 3) ?d y x s)"
      by (rule indexCenterPixel_counts) (rule a)
  next
    fix x' s assume "?D s"
    then show "?D (indexCenterPixel 3 ?w (?w div 3) ?d y x' s)"
      by (rule indexCenterPixel_keeps_colors)
  qed
  have "?D (fold (\<lambda>y. fold (\<lambda>x. indexCenterPixel 3 ?w (?w div 3) ?d y x) [0..<?w div 3])
                 [0..<?h div 3]
                 (replicate (?w div 3 * (?h div 3)) 0, colorsUsed t))"
  proof (rule fold_reaches_simple [where D = ?D and ?x0.0 = y])
    show "y \<in> set [0..<?h div 3]" using assms(2) by simp
  next
    fix s show "?D (fold (indexCenterPixel 3 ?w (?w div 3) ?d y) [0..<?w div 3] s)"
      by (rule row)
  next
    fix y' s assume "?D s"
    then show "?D (fold (indexCenterPixel 3 ?w (?w div 3) ?d y') [0..<?w div 3] s)"
      by (rule rowD)
  qed
  then show ?thesis unfolding colorsUsed_indexChunk .
qed

lemma buildCenterPixelIndex_activeColors:
  assumes "chunked this = Some ch"
  shows "activeColors (buildCenterPixelIndex dm this)
           = Some (set (map fst (colorsUsed (buildCenterPixelIndex dm this))))"
  using assms by (simp add: buildCenterPixelIndex_def Let_def)

lemma buildCenterPixelIndex_counts:
  assumes "chunked this = Some ch" and "map_of ch k = Some bmp"
    and "x < width bmp div 3" and "y < height bmp div 3"
    and "srcByte bmp (x * 3 + 1) (y * 3 + 1) 3 \<noteq> 0"
  shows "colorsUsed (buildCenterPixelIndex 3 this) \<noteq> []"
proof -
  let ?D = "\<lambda>t :: Template. colorsUsed t \<noteq> []"
  let ?f = "\<lambda>key t. case map_of ch key of None \<Rightarrow> t | Some bmp \<Rightarrow> indexChunk 3 key bmp t"
  from assms(2) have "(k, bmp) \<in> set ch" by (rule map_of_SomeD)
  then have k: "k \<in> set (map fst ch)" by force
  have "?D (fold ?f (map fst ch) (this\<lparr>centerPixelIndex := [], colorsUsed := []\<rparr>))"
  proof (rule fold_reaches_simple [where D = ?D and ?x0.0 = k])
    show "k \<in> set (map fst ch)" by (rule k)
  next
    fix s show "?D (?f k s)"
      using indexChunk_counts [OF assms(3,4,5)] by (simp add: assms(2))
  next
    fix key s assume "?D s"
    then show "?D (?f key s)"
      by (cases "map_of ch key") (simp_all add: indexChunk_keeps_colors)
  qed
  then show ?thesis using assms(1) by (simp add: buildCenterPixelIndex_def Let_def)
qed

lemma createTemplateTiles_activeColors:
  assumes "0 < T"
  shows "\<exists>t tiles. createTemplateTiles (newTemplate sid co T) bitmap = Inr (t, tiles) \<and>
           activeColors t = Some (set (map fst (colorsUsed t))) \<and>
           ((\<exists>x y. x < width bitmap \<and> y < height bitmap \<and> srcByte bitmap x y 3 \<noteq> 0)
              \<longrightarrow> colorsUsed t \<noteq> [])"
proof -
  let ?c2 = "fst (snd (snd co))" and ?c3 = "snd (snd (snd co))"
  let ?w = "width bitmap" and ?h = "height bitmap"
  define segsX where "segsX = segments T ?c2 ?w ?c2"
  define segsY where "segsY = segments T ?c3 ?h ?c3"
  define st where "st = chunkLoops co bitmap segsY segsX
                          ((newTemplate sid co T)\<lparr>pixelCount := ?w * ?h\<rparr>, [])"
  define t where "t = (fst st)\<lparr>activeColors := Some (set (map fst (colorsUsed (fst st))))\<rparr>"
  have res: "createTemplateTiles (newTemplate sid co T) bitmap = Inr (t, snd st)"
    using createTemplateTiles_fresh [OF assms, of sid co bitmap]
    by (simp add: Let_def t_def st_def segsX_def segsY_def)
  have ac: "activeColors t = Some (set (map fst (colorsUsed t)))" by (simp add: t_def)
  have cov: "colorsUsed t \<noteq> []"
    if "x < ?w" and "y < ?h" and "srcByte bitmap x y 3 \<noteq> 0" for x y
  proof -
    from segments_cover [of ?c2 ?c2 "?c2 + x" ?w T] that(1) assms
    obtain px dx where sx: "(px, dx) \<in> set segsX" "px \<le> ?c2 + x" "?c2 + x < px + dx"
      unfolding segsX_def by auto
    from segments_cover [of ?c3 ?c3 "?c3 + y" ?h T] that(2) assms
    obtain py dy where sy: "(py, dy) \<in> set segsY" "py \<le> ?c3 + y" "?c3 + y < py + dy"
      unfolding segsY_def by auto
    from segments_props [of px dx T ?c2 ?w ?c2] sx(1) have px: "?c2 \<le> px" by (simp add: segsX_def)
    from segments_props [of py dy T ?c3 ?h ?c3] sy(1) have py: "?c3 \<le> py" by (simp add: segsY_def)
    define lx where "lx = ?c2 + x - px"
    define ly where "ly = ?c3 + y - py"
    have l: "lx < dx" "ly < dy" using sx sy by (simp_all add: lx_def ly_def)
    have "px - ?c2 + lx = x" "py - ?c3 + ly = y" using px py sx(2) sy(2) by (simp_all add: lx_def ly_def)
    with that(3) have "srcByte bitmap (px - ?c2 + lx) (py - ?c3 + ly) 3 \<noteq> 0" by simp
    from chunkLoops_counts_pixel [OF sx(1) sy(1) l this]
    show ?thesis by (simp add: t_def st_def)
  qed
  from res ac cov show ?thesis by blast
qed

lemma createTemplateTiles_adds_keys:
  assumes "createTemplateTiles this bitmap = Inr (t, tiles)"
  shows "activeColors t
           = map_option (\<lambda>ac. ac \<union> set (map fst (colorsUsed t))) (activeColors this)"
proof -
  define st where "st = yLoop (tileSize this) (coords this) bitmap
                          (snd (snd (snd (coords this))))
                          (this\<lparr>pixelCount := width bitmap * height bitmap\<rparr>, [])"
  have a: "activeColors (fst st) = activeColors this"
    unfolding st_def yLoop_chunkLoops by (simp add: activeColors_chunkLoops)
  show ?thesis
  proof (cases "colorsUsed (fst st) = []")
    case True
    with assms have "t = fst st"
      by (simp add: createTemplateTiles_def Let_def st_def [symmetric] split: if_splits)
    with True a show ?thesis by (cases "activeColors this") simp_all
  next
    case False
    show ?thesis
    proof (cases "activeColors this")
      case None
      with False a assms show ?thesis
        by (simp add: createTemplateTiles_def Let_def st_def [symmetric] split: if_splits)
    next
      case (Some ac)
      with False a assms
      have "t = (fst st)\<lparr>activeColors := Some (ac \<union> set (map fst (colorsUsed (fst st))))\<rparr>"
        by (simp add: createTemplateTiles_def Let_def st_def [symmetric] split: if_splits)
      with Some show ?thesis by simp
    qed
  qed
qed

lemma buildCenterPixelIndex_no_chunks:
  assumes "chunked this = None"
  shows "buildCenterPixelIndex dm this = this\<lparr>centerPixelIndex := [], colorsUsed := []\<rparr>"
  using assms by (simp add: buildCenterPixelIndex_def Let_def)

lemma createTemplateTiles_redTemplate:
  "createTemplateTiles ((newTemplate 0 (0, 0, 0, 0) 1000)\<lparr>activeColors := Some {''255,0,0''}\<rparr>)
       blackPixel
     = Inr (blackTemplate\<lparr> chunked := None, activeColors := Some {''255,0,0'', ''0,0,0''} \<rparr>,
            [((0, 0, 0, 0), blackChunk)])"
  by code_simp

text \<open>
  C10, as amended.
  \<^item> \<open>createTemplateTiles\<close> adds the keys of \<open>colorsUsed\<close> to the \<open>activeColors\<close>
    it finds: when it completes, \<open>activeColors\<close> is the set it found united with the
    keys of \<open>colorsUsed\<close>, and \<open>null\<close> if it found \<open>null\<close>.
  \<^item> On a freshly constructed template (positive tile size) it completes,
    \<open>activeColors\<close> is then exactly the set of the keys of \<open>colorsUsed\<close>, and it is
    not empty when the source image has a pixel with alpha other than 0.
  \<^item> After \<open>buildCenterPixelIndex(drawMult)\<close>, \<open>drawMult\<close> positive, on a template
    whose \<open>chunked\<close> is set, \<open>activeColors\<close> is not \<open>null\<close> and is exactly the set
    of the keys of \<open>colorsUsed\<close>; with \<open>drawMult = 3\<close> it is not empty when a chunk
    bitmap has a centre sample with alpha other than 0.
  \<^item> When \<open>chunked\<close> is \<open>null\<close>, \<open>buildCenterPixelIndex\<close> clears \<open>colorsUsed\<close> and
    the packed index and changes nothing else: \<open>activeColors\<close> stays as it was.
\<close>

theorem activeColors_equals_colorsUsed:
  assumes "0 < T" and "0 < drawMult"
  shows "(\<forall>t tiles. createTemplateTiles this bitmap = Inr (t, tiles) \<longrightarrow>
            activeColors t
              = map_option (\<lambda>ac. ac \<union> set (map fst (colorsUsed t))) (activeColors this)) \<and>
         (\<exists>t tiles. createTemplateTiles (newTemplate sid co T) bitmap = Inr (t, tiles) \<and>
            activeColors t = Some (set (map fst (colorsUsed t))) \<and>
            ((\<exists>x y. x < width bitmap \<and> y < height bitmap \<and> srcByte bitmap x y 3 \<noteq> 0)
               \<longrightarrow> activeColors t \<noteq> Some {})) \<and>
         (\<forall>ch. chunked this = Some ch \<longrightarrow>
            activeColors (buildCenterPixelIndex drawMult this)
              = Some (set (map fst (colorsUsed (buildCenterPixelIndex drawMult this)))) \<and>
            ((\<exists>k bmp x y. map_of ch k = Some bmp \<and> x < width bmp div 3 \<and> y < height bmp div 3
                          \<and> srcByte bmp (x * 3 + 1) (y * 3 + 1) 3 \<noteq> 0)
               \<longrightarrow> activeColors (buildCenterPixelIndex 3 this) \<noteq> Some {})) \<and>
         (chunked this = None \<longrightarrow>
            buildCenterPixelIndex drawMult this
              = this\<lparr>centerPixelIndex := [], colorsUsed := []\<rparr>)"
proof (intro conjI allI impI)
  fix t tiles assume "createTemplateTiles this bitmap = Inr (t, tiles)"
  then show "activeColors t
              = map_option (\<lambda>ac. ac \<union> set (map fst (colorsUsed t))) (activeColors this)"
    by (rule createTemplateTiles_adds_keys)
next
  from createTemplateTiles_activeColors [OF assms(1), of sid co bitmap]
  obtain t tiles where r: "createTemplateTiles (newTemplate sid co T) bitmap = Inr (t, tiles)"
    and a: "activeColors t = Some (set (map fst (colorsUsed t)))"
    and c: "(\<exists>x y. x < width bitmap \<and> y < height bitmap \<and> srcByte bitmap x y 3 \<noteq> 0)
              \<longrightarrow> colorsUsed t \<noteq> []"
    by blast
  from a c have "(\<exists>x y. x < width bitmap \<and> y < height bitmap \<and> srcByte bitmap x y 3 \<noteq> 0)
              \<longrightarrow> activeColors t \<noteq> Some {}" by simp
  with r a show "\<exists>t tiles. createTemplateTiles (newTemplate sid co T) bitmap = Inr (t, tiles) \<and>
            activeColors t = Some (set (map fst (colorsUsed t))) \<and>
            ((\<exists>x y. x < width bitmap \<and> y < height bitmap \<and> srcByte bitmap x y 3 \<noteq> 0)
               \<longrightarrow> activeColors t \<noteq> Some {})" by blast
next
  fix ch assume "chunked this = Some ch"
  then show "activeColors (buildCenterPixelIndex drawMult this)
           = Some (set (map fst (colorsUsed (buildCenterPixelIndex drawMult this))))"
    by (rule buildCenterPixelIndex_activeColors)
next
  fix ch assume ch: "chunked this = Some ch"
    and "\<exists>k bmp x y. map_of ch k = Some bmp \<and> x < width bmp div 3 \<and> y < height bmp div 3
                       \<and> srcByte bmp (x * 3 + 1) (y * 3 + 1) 3 \<noteq> 0"
  then obtain k bmp x y where "map_of ch k = Some bmp" "x < width bmp div 3"
    "y < height bmp div 3" "srcByte bmp (x * 3 + 1) (y * 3 + 1) 3 \<noteq> 0" by blast
  from buildCenterPixelIndex_counts [OF ch this]
  show "activeColors (buildCenterPixelIndex 3 this) \<noteq> Some {}"
    by (simp add: buildCenterPixelIndex_activeColors [OF ch])
next
  assume "chunked this = None"
  then show "buildCenterPixelIndex drawMult this
               = this\<lparr>centerPixelIndex := [], colorsUsed := []\<rparr>"
    by (rule buildCenterPixelIndex_no_chunks)
qed

theorem activeColors_equals_colorsUsed_witness:
  "(0::nat) < 1000 \<and> (0::nat) < 3 \<and>
   createTemplateTiles blackTemplate blackPixel
     = Inr (blackTemplate\<lparr>chunked := Some [((0, 0, 0, 0), blackChunk)],
                           colorsUsed := [(''0,0,0'', 2)],
                           tileIndex := [((0, 0), [(0, 0, 0, 0), (0, 0, 0, 0)])]\<rparr>,
            [((0, 0, 0, 0), blackChunk)]) \<and>
   activeColors (blackTemplate\<lparr>chunked := Some [((0, 0, 0, 0), blackChunk)],
                               colorsUsed := [(''0,0,0'', 2)],
                               tileIndex := [((0, 0), [(0, 0, 0, 0), (0, 0, 0, 0)])]\<rparr>)
     = map_option (\<lambda>ac. ac \<union> set (map fst [(''0,0,0'', 2 :: nat)])) (activeColors blackTemplate) \<and>
   (\<exists>t tiles. createTemplateTiles (newTemplate 0 (0, 0, 0, 0) 1000) blackPixel = Inr (t, tiles) \<and>
       activeColors t = Some (set (map fst (colorsUsed t))) \<and> activeColors t \<noteq> Some {}) \<and>
   chunked blackTemplate = Some [((0, 0, 0, 0), blackChunk)] \<and>
   activeColors (buildCenterPixelIndex 3 blackTemplate)
     = Some (set (map fst (colorsUsed (buildCenterPixelIndex 3 blackTemplate)))) \<and>
   activeColors (buildCenterPixelIndex 3 blackTemplate) \<noteq> Some {} \<and>
   chunked (blackTemplate\<lparr>chunked := None\<rparr>) = None \<and>
   buildCenterPixelIndex 3 (blackTemplate\<lparr>chunked := None\<rparr>)
     = blackTemplate\<lparr>chunked := None, centerPixelIndex := [], colorsUsed := []\<rparr>"
proof -
  let ?t2 = "blackTemplate\<lparr>chunked := Some [((0, 0, 0, 0), blackChunk)],
                           colorsUsed := [(''0,0,0'', 2)],
                           tileIndex := [((0, 0), [(0, 0, 0, 0), (0, 0, 0, 0)])]\<rparr>"
  have z: "(0::nat) < 1000" "(0::nat) < 3" by simp_all
  have c: "chunked blackTemplate = Some [((0, 0, 0, 0), blackChunk)]"
    by (simp add: blackTemplate_def)
  have n: "chunked (blackTemplate\<lparr>chunked := None\<rparr>) = None" by simp
  have r: "createTemplateTiles blackTemplate blackPixel
             = Inr (?t2, [((0, 0, 0, 0), blackChunk)])"
    by code_simp
  have p: "\<exists>x y. x < width blackPixel \<and> y < height blackPixel \<and> srcByte blackPixel x y 3 \<noteq> 0"
    by (intro exI [of _ 0]) (simp add: blackPixel_def srcByte_def elemAt_def)
  have q: "\<exists>k bmp x y. map_of [((0, 0, 0, 0), blackChunk)] k = Some bmp \<and> x < width bmp div 3
             \<and> y < height bmp div 3 \<and> srcByte bmp (x * 3 + 1) (y * 3 + 1) 3 \<noteq> 0"
    by (intro exI [of _ "(0, 0, 0, 0)"] exI [of _ blackChunk] exI [of _ 0])
       (simp add: blackChunk_def srcByte_def elemAt_def)
  note th = activeColors_equals_colorsUsed [OF z, of blackTemplate blackPixel 0 "(0, 0, 0, 0)"]
  from th r have w1: "activeColors ?t2
     = map_option (\<lambda>ac. ac \<union> set (map fst (colorsUsed ?t2))) (activeColors blackTemplate)"
    by blast
  from th p have w2: "\<exists>t tiles. createTemplateTiles (newTemplate 0 (0, 0, 0, 0) 1000) blackPixel
       = Inr (t, tiles) \<and>
       activeColors t = Some (set (map fst (colorsUsed t))) \<and> activeColors t \<noteq> Some {}"
    by blast
  from th c q have w3: "activeColors (buildCenterPixelIndex 3 blackTemplate)
     = Some (set (map fst (colorsUsed (buildCenterPixelIndex 3 blackTemplate))))"
    "activeColors (buildCenterPixelIndex 3 blackTemplate) \<noteq> Some {}"
    by blast+
  from activeColors_equals_colorsUsed [OF z, of "blackTemplate\<lparr>chunked := None\<rparr>"] n
  have w4: "buildCenterPixelIndex 3 (blackTemplate\<lparr>chunked := None\<rparr>)
     = blackTemplate\<lparr>chunked := None, centerPixelIndex := [], colorsUsed := []\<rparr>"
    by simp
  from w1 have w1': "activeColors ?t2
     = map_option (\<lambda>ac. ac \<union> set (map fst [(''0,0,0'', 2 :: nat)])) (activeColors blackTemplate)"
    by simp
  from z r w1' w2 c w3 n w4 show ?thesis by blast
qed

text \<open>
  C10 as stated fails in two ways. When \<open>chunked\<close> is \<open>null\<close>,
  \<open>buildCenterPixelIndex\<close> clears \<open>colorsUsed\<close> and returns at its guard (line 261)
  before \<open>activeColors\<close> is refreshed: on the template that \<open>createTemplateTiles\<close>
  leaves for \<open>blackPixel\<close> (\<open>chunked\<close> not yet assigned) the histogram ends empty
  and \<open>activeColors\<close> still holds \<open>0,0,0\<close>. And \<open>createTemplateTiles\<close> on a template
  whose \<open>activeColors\<close> holds \<open>255,0,0\<close> keeps that key, which \<open>colorsUsed\<close> does
  not have.
\<close>

theorem stale_activeColors_counterexample:
  "activeColors (buildCenterPixelIndex 3 (blackTemplate\<lparr>chunked := None\<rparr>)) = Some {''0,0,0''} \<and>
   colorsUsed (buildCenterPixelIndex 3 (blackTemplate\<lparr>chunked := None\<rparr>)) = [] \<and>
   \<not> (activeColors (buildCenterPixelIndex 3 (blackTemplate\<lparr>chunked := None\<rparr>))
        = Some (set (map fst (colorsUsed (buildCenterPixelIndex 3 (blackTemplate\<lparr>chunked := None\<rparr>)))))) \<and>
   (\<exists>t tiles.
      createTemplateTiles ((newTemplate 0 (0, 0, 0, 0) 1000)\<lparr>activeColors := Some {''255,0,0''}\<rparr>)
          blackPixel = Inr (t, tiles) \<and>
      activeColors t = Some {''255,0,0'', ''0,0,0''} \<and>
      colorsUsed t = [(''0,0,0'', 1)] \<and>
      \<not> (activeColors t = Some (set (map fst (colorsUsed t)))))"
proof -
  have a: "activeColors (buildCenterPixelIndex 3 (blackTemplate\<lparr>chunked := None\<rparr>))
             = Some {''0,0,0''}"
    "colorsUsed (buildCenterPixelIndex 3 (blackTemplate\<lparr>chunked := None\<rparr>)) = []"
    by (simp_all add: buildCenterPixelIndex_def Let_def blackTemplate_def)
  let ?t = "blackTemplate\<lparr> chunked := None, activeColors := Some {''255,0,0'', ''0,0,0''} \<rparr>"
  have b: "activeColors ?t = Some {''255,0,0'', ''0,0,0''}" "colorsUsed ?t = [(''0,0,0'', 1)]"
    by (simp_all add: blackTemplate_def)
  have ne: "{''255,0,0'', ''0,0,0''} \<noteq> {''0,0,0''}" by auto
  from a have "\<not> (activeColors (buildCenterPixelIndex 3 (blackTemplate\<lparr>chunked := None\<rparr>))
        = Some (set (map fst (colorsUsed (buildCenterPixelIndex 3 (blackTemplate\<lparr>chunked := None\<rparr>))))))"
    by simp
  moreover from b ne have "\<not> (activeColors ?t = Some (set (map fst (colorsUsed ?t))))" by simp
  ultimately show ?thesis using a b createTemplateTiles_redTemplate by blast
qed

end
